theory Spec2Isabelle
  imports Main "HOL-Library.Char_ord" "HOL-Library.List_Lexorder" "HOL-Library.RBT"
begin

section \<open>Data model of hurl\<close>

text \<open>
  A \<open>std::string\<close> is a sequence of bytes: \<open>string\<close> (a \<open>char list\<close>).
  The exceptions of the library are the values of one datatype; a function that may
  throw returns \<open>error + 'a\<close>, with \<open>Inl\<close> for the exception.
\<close>

datatype error =
    timeout
  | resolve_error
  | connect_error
  | curl_error int
  | runtime_error string

text \<open>
  \<open>struct httpresponse\<close>. The member \<open>headers\<close> is used by \<open>headerfunc\<close> and
  \<open>process_response\<close> through \<open>operator[]\<close> and \<open>count\<close> only, as the
  \<open>std::map<std::string, std::string>\<close> it is: a finite map from names to values.
\<close>

record httpresponse =
  status :: int
  body :: string
  headers :: "string \<rightharpoonup> string"

text \<open>
  The result codes of libcurl that \<open>handle::perform\<close> tells apart, with the values
  the enumeration \<open>CURLcode\<close> of \<open>curl/curl.h\<close> gives them.
\<close>

definition CURLE_OK :: int where
  "CURLE_OK = 0"

definition CURLE_COULDNT_RESOLVE_HOST :: int where
  "CURLE_COULDNT_RESOLVE_HOST = 6"

definition CURLE_COULDNT_CONNECT :: int where
  "CURLE_COULDNT_CONNECT = 7"

definition CURLE_OPERATION_TIMEDOUT :: int where
  "CURLE_OPERATION_TIMEDOUT = 28"

section \<open>String helpers\<close>

text \<open>\<open>isspace\<close> and \<open>tolower\<close> of \<open>cctype\<close> in the "C" locale.\<close>

definition isspace :: "char \<Rightarrow> bool" where
  "isspace c \<longleftrightarrow> c = CHR '' '' \<or> (9 \<le> (of_char c :: nat) \<and> (of_char c :: nat) \<le> 13)"

definition tolower_char :: "char \<Rightarrow> char" where
  "tolower_char c =
     (if 65 \<le> (of_char c :: nat) \<and> (of_char c :: nat) \<le> 90
      then char_of ((of_char c :: nat) + 32) else c)"

text \<open>
  \<open>std::find_if\<close> over a string, as the offset of the iterator it returns from the
  start of the range: the position of the first element that satisfies \<open>P\<close>, or the
  length of the range if there is none.
\<close>

fun find_if :: "(char \<Rightarrow> bool) \<Rightarrow> string \<Rightarrow> nat" where
  "find_if P [] = 0"
| "find_if P (c # cs) = (if P c then 0 else Suc (find_if P cs))"

text \<open>\<open>std::string::find(char)\<close>: \<open>None\<close> is \<open>std::string::npos\<close>.\<close>

definition find_char :: "string \<Rightarrow> char \<Rightarrow> nat option" where
  "find_char s c =
     (let i = find_if (\<lambda>x. x = c) s in if i < length s then Some i else None)"

text \<open>
  \<open>s.substr(pos, n)\<close> and \<open>s.substr(pos)\<close>, for \<open>pos \<le> s.size()\<close> (the only way
  \<open>headerfunc\<close> calls them; beyond that the C++ throws \<open>std::out_of_range\<close>).
\<close>

definition substr :: "string \<Rightarrow> nat \<Rightarrow> nat \<Rightarrow> string" where
  "substr s pos n = take n (drop pos s)"

definition substr_from :: "string \<Rightarrow> nat \<Rightarrow> string" where
  "substr_from s pos = drop pos s"

text \<open>
  \<open>ltrim\<close> builds the string from the first non-space to the end; \<open>rtrim\<close> searches
  from the back (\<open>rbegin\<close>, \<open>rend\<close>) and takes \<open>base()\<close> of the reverse iterator
  found, which lies \<open>find_if\<close> positions before the end.
\<close>

definition ltrim :: "string \<Rightarrow> string" where
  "ltrim s = drop (find_if (\<lambda>c. \<not> isspace c) s) s"

definition rtrim :: "string \<Rightarrow> string" where
  "rtrim s = take (length s - find_if (\<lambda>c. \<not> isspace c) (rev s)) s"

definition trim :: "string \<Rightarrow> string" where
  "trim s = ltrim (rtrim s)"

definition tolower :: "string \<Rightarrow> string" where
  "tolower s = map tolower_char s"

section \<open>The header callback\<close>

text \<open>
  \<open>headerfunc\<close> receives one header line (\<open>size * nmemb\<close> bytes) and the response
  under construction. It returns the number of bytes it took, which is always all of
  them, and the response.
\<close>

definition headerfunc :: "string \<Rightarrow> httpresponse \<Rightarrow> nat \<times> httpresponse" where
  "headerfunc header resp =
     (case find_char header (CHR '':'') of
        Some cpos \<Rightarrow>
          (let name = tolower (substr header 0 cpos);
               val = trim (substr_from header (cpos + 1))
           in (length header, resp\<lparr>headers := (headers resp)(name \<mapsto> val)\<rparr>))
      | None \<Rightarrow> (length header, resp))"

section \<open>The transport handle\<close>

text \<open>
  libcurl is not part of the repository: its easy handle is modelled by what the wrapper
  can tell about it. The options hurl sets, and the values it passes (the two callbacks
  and the two pointers handed to them are tokens):
\<close>

datatype CURLoption =
    CURLOPT_URL
  | CURLOPT_NOSIGNAL
  | CURLOPT_NOPROGRESS
  | CURLOPT_WRITEFUNCTION
  | CURLOPT_WRITEDATA
  | CURLOPT_HEADERFUNCTION
  | CURLOPT_HEADERDATA
  | CURLOPT_COOKIEFILE
  | CURLOPT_TIMEOUT
  | CURLOPT_HTTPHEADER
  | CURLOPT_POST
  | CURLOPT_POSTFIELDS
  | CURLOPT_POSTFIELDSIZE
  | CURLOPT_COOKIELIST

datatype optval =
    Long int
  | Str string
  | Slist "string list"
  | Fn_streamfunc
  | Fn_headerfunc
  | Ptr_out
  | Ptr_resp

text \<open>
  The easy handle \<open>CURL\<close>: the options stored in it since it was created or last
  reset, in the order of the calls; the state of its cookie engine, which is the
  sequence of cookie lines and commands it was given, through \<open>CURLOPT_COOKIELIST\<close>
  or by the responses of its transfers; and the HTTP status of its last transfer, which
  \<open>CURLINFO_RESPONSE_CODE\<close> reads. \<open>curl_easy_reset\<close> puts every option back to
  its default, clears the information on the last transfer and keeps the cookies.
\<close>

record CURL =
  options :: "(CURLoption \<times> optval) list"
  cookielist :: "string list"
  info_response_code :: int

text \<open>
  What one run of \<open>curl_easy_perform\<close> does: the header lines it hands to the header
  callback, the pieces of the body it hands to the write callback, the cookies the
  response sets, the \<open>CURLcode\<close> it returns and the HTTP status it leaves for
  \<open>CURLINFO_RESPONSE_CODE\<close>.
\<close>

record transfer =
  header_lines :: "string list"
  body_chunks :: "string list"
  cookies_set :: "string list"
  result_code :: int
  response_code :: int

text \<open>
  The behaviour of the library and of the network behind it, a parameter of every
  function that calls libcurl: the code \<open>curl_easy_setopt\<close> returns for an option and
  a value, the transfer \<open>curl_easy_perform\<close> runs on a configured handle, and the code
  \<open>curl_easy_getinfo\<close> returns.
\<close>

record libcurl =
  setopt_code :: "CURLoption \<Rightarrow> optval \<Rightarrow> int"
  run_transfer :: "CURL \<Rightarrow> transfer"
  getinfo_code :: "CURL \<Rightarrow> int"

definition curl_easy_setopt :: "libcurl \<Rightarrow> CURL \<Rightarrow> CURLoption \<Rightarrow> optval \<Rightarrow> int \<times> CURL" where
  "curl_easy_setopt L c opt v =
     (let code = setopt_code L opt v in
      if code \<noteq> CURLE_OK then (code, c)
      else if opt = CURLOPT_COOKIELIST
        then (code, c\<lparr>cookielist := cookielist c @ [case v of Str s \<Rightarrow> s | _ \<Rightarrow> []]\<rparr>)
        else (code, c\<lparr>options := options c @ [(opt, v)]\<rparr>))"

definition curl_easy_reset :: "CURL \<Rightarrow> CURL" where
  "curl_easy_reset c = c\<lparr>options := [], info_response_code := 0\<rparr>"

text \<open>
  \<open>curl_easy_perform\<close>: the transfer the library runs on the handle as it is
  configured, and the handle with what the transfer leaves in it.
\<close>

definition curl_easy_perform :: "libcurl \<Rightarrow> CURL \<Rightarrow> transfer \<times> CURL" where
  "curl_easy_perform L c =
     (let t = run_transfer L c in
      (t, c\<lparr>cookielist := cookielist c @ cookies_set t,
            info_response_code := response_code t\<rparr>))"

definition curl_easy_getinfo_response_code :: "libcurl \<Rightarrow> CURL \<Rightarrow> int \<times> int" where
  "curl_easy_getinfo_response_code L c = (getinfo_code L c, info_response_code c)"

text \<open>
  \<open>class detail::handle\<close>: the easy handle and the \<open>curl_slist\<close> of pending outbound
  header lines.
\<close>

record handle =
  handle_p :: CURL
  headers_p :: "string list"

text \<open>
  (The members are \<open>handle_\<close> and \<open>headers_\<close> in the source.) A \<open>const char*\<close>
  taken with \<open>c_str()\<close> and read as a C string ends at the first zero byte.
\<close>

definition c_str :: "string \<Rightarrow> string" where
  "c_str s = takeWhile (\<lambda>c. c \<noteq> CHR 0x00) s"

definition add_header :: "handle \<Rightarrow> string \<Rightarrow> handle" where
  "add_header h header = h\<lparr>headers_p := headers_p h @ [c_str header]\<rparr>"

definition clear_headers :: "handle \<Rightarrow> handle" where
  "clear_headers h = h\<lparr>headers_p := []\<rparr>"

definition reset :: "handle \<Rightarrow> handle" where
  "reset h = (let h1 = clear_headers h in h1\<lparr>handle_p := curl_easy_reset (handle_p h1)\<rparr>)"

definition setopt :: "libcurl \<Rightarrow> handle \<Rightarrow> CURLoption \<Rightarrow> optval \<Rightarrow> (error + unit) \<times> handle" where
  "setopt L h opt v =
     (let (code, c) = curl_easy_setopt L (handle_p h) opt v in
      if CURLE_OK \<noteq> code then (Inl (curl_error code), h\<lparr>handle_p := c\<rparr>)
      else (Inr (), h\<lparr>handle_p := c\<rparr>))"

definition getinfo_response_code :: "libcurl \<Rightarrow> handle \<Rightarrow> error + int" where
  "getinfo_response_code L h =
     (let (code, ret) = curl_easy_getinfo_response_code L (handle_p h) in
      if CURLE_OK \<noteq> code then Inl (curl_error code) else Inr ret)"

text \<open>
  A run of \<open>setopt\<close> calls one after the other, as \<open>prepare_basic\<close> and
  \<open>prepare_post\<close> make them: the first one that throws ends the run.
\<close>

fun setopts :: "libcurl \<Rightarrow> handle \<Rightarrow> (CURLoption \<times> optval) list \<Rightarrow> (error + unit) \<times> handle" where
  "setopts L h [] = (Inr (), h)"
| "setopts L h ((opt, v) # rest) =
     (case setopt L h opt v of
        (Inl e, h1) \<Rightarrow> (Inl e, h1)
      | (Inr _, h1) \<Rightarrow> setopts L h1 rest)"

text \<open>
  An output stream, as far as the write callback and its callers see it: whether it
  accepts data (a string stream always does; a file stream only if the file could be
  opened) and the bytes written to it so far.
\<close>

record ostream =
  is_good :: bool
  written :: string

definition streamfunc :: "string \<Rightarrow> ostream \<Rightarrow> nat \<times> ostream" where
  "streamfunc chunk out =
     (length chunk, if is_good out then out\<lparr>written := written out @ chunk\<rparr> else out)"

text \<open>
  \<open>handle::perform\<close>. The callbacks registered on the handle run inside
  \<open>curl_easy_perform\<close>, on the response and the stream they were registered with;
  both are arguments here and are returned as the transfer left them, also when
  \<open>perform\<close> throws.
\<close>

definition perform ::
  "libcurl \<Rightarrow> handle \<Rightarrow> httpresponse \<Rightarrow> ostream \<Rightarrow> (error + unit) \<times> handle \<times> httpresponse \<times> ostream" where
  "perform L h resp out =
     (case setopt L h CURLOPT_HTTPHEADER (Slist (headers_p h)) of
        (Inl e, h1) \<Rightarrow> (Inl e, h1, resp, out)
      | (Inr _, h1) \<Rightarrow>
          (let (t, c) = curl_easy_perform L (handle_p h1);
               resp1 = fold (\<lambda>line r. snd (headerfunc line r)) (header_lines t) resp;
               out1 = fold (\<lambda>chunk s. snd (streamfunc chunk s)) (body_chunks t) out;
               code = result_code t
           in (if CURLE_OK = code then Inr ()
               else if CURLE_OPERATION_TIMEDOUT = code then Inl timeout
               else if CURLE_COULDNT_RESOLVE_HOST = code then Inl resolve_error
               else if CURLE_COULDNT_CONNECT = code then Inl connect_error
               else Inl (curl_error code),
               h1\<lparr>handle_p := c\<rparr>, resp1, out1)))"

text \<open>
  The code \<open>curl_easy_perform\<close> returns when \<open>perform\<close> calls it on \<open>h\<close>: the handle
  it runs on has the pending header list stored as \<open>CURLOPT_HTTPHEADER\<close>.
\<close>

definition transport_code :: "libcurl \<Rightarrow> handle \<Rightarrow> int" where
  "transport_code L h =
     result_code (fst (curl_easy_perform L
       (snd (curl_easy_setopt L (handle_p h) CURLOPT_HTTPHEADER (Slist (headers_p h))))))"

section \<open>Sample environments\<close>

text \<open>
  A handle as its constructor leaves it (when \<open>curl_easy_init\<close> succeeds): no option
  set, no cookie, no pending header. A library in which every \<open>curl_easy_setopt\<close> and
  \<open>curl_easy_getinfo\<close> succeeds and every transfer runs as \<open>t\<close>. A transfer that
  gets no answer from the server and ends with the given code.
\<close>

definition new_handle :: handle where
  "new_handle =
     \<lparr>handle_p = \<lparr>options = [], cookielist = [], info_response_code = 0\<rparr>, headers_p = []\<rparr>"

definition lib_const :: "transfer \<Rightarrow> libcurl" where
  "lib_const t =
     \<lparr>setopt_code = (\<lambda>opt v. CURLE_OK), run_transfer = (\<lambda>c. t), getinfo_code = (\<lambda>c. CURLE_OK)\<rparr>"

definition no_answer :: "int \<Rightarrow> transfer" where
  "no_answer code =
     \<lparr>header_lines = [], body_chunks = [], cookies_set = [], result_code = code,
      response_code = 0\<rparr>"

definition empty_response :: httpresponse where
  "empty_response = \<lparr>status = 0, body = [], headers = Map.empty\<rparr>"

section \<open>Parameter serialization\<close>

text \<open>
  \<open>httpparams\<close> is a \<open>std::map\<close> from \<open>std::string\<close> to \<open>std::string\<close>: a red-black tree whose
  iterator visits the entries in ascending order of the keys, \<open>std::string\<close>s compared
  byte by byte, a proper prefix first. \<open>RBT.entries\<close> is that traversal; the order on
  \<open>string\<close> is the lexicographic one over the order of \<open>char\<close> by code.
\<close>

type_synonym httpparams = "(string, string) rbt"

text \<open>
  The encoding \<open>curl_easy_escape\<close> of libcurl performs: every byte other than a
  letter, a digit, \<open>-\<close>, \<open>.\<close>, \<open>_\<close> or \<open>~\<close> becomes \<open>%\<close> and its two hexadecimal
  digits in upper case.
\<close>

definition isunreserved :: "char \<Rightarrow> bool" where
  "isunreserved c \<longleftrightarrow>
     (let n = (of_char c :: nat) in
      (48 \<le> n \<and> n \<le> 57) \<or> (65 \<le> n \<and> n \<le> 90) \<or> (97 \<le> n \<and> n \<le> 122)
      \<or> c = CHR ''-'' \<or> c = CHR ''.'' \<or> c = CHR ''_'' \<or> c = CHR ''~'')"

definition hexdigit :: "nat \<Rightarrow> char" where
  "hexdigit n = ''0123456789ABCDEF'' ! n"

definition escape_char :: "char \<Rightarrow> string" where
  "escape_char c =
     (if isunreserved c then [c]
      else [CHR ''%'', hexdigit ((of_char c :: nat) div 16), hexdigit ((of_char c :: nat) mod 16)])"

definition percent_encoded :: "string \<Rightarrow> string" where
  "percent_encoded s = concat (map escape_char s)"

text \<open>
  \<open>curl_easy_escape(handle, string, inlength)\<close> takes the length as an \<open>int\<close>. It
  returns a null pointer, here \<open>None\<close>, for a negative length; for the length 0 it
  takes the length of the C string; and it gives up with a null pointer when the
  encoded string and its final zero byte come to more than three times
  \<open>CURL_MAX_INPUT_LENGTH\<close>, which is 8000000. The string is given as the bytes at
  the pointer. \<open>serialize\<close> passes \<open>size()\<close>, a \<open>size_t\<close> of 64 bits, as the length:
  the conversion to \<open>int\<close> keeps the low 32 bits, read in two's complement.
\<close>

definition CURL_MAX_INPUT_LENGTH :: nat where
  "CURL_MAX_INPUT_LENGTH = 8000000"

definition size_to_int :: "nat \<Rightarrow> int" where
  "size_to_int n =
     (if n mod 2 ^ 32 < 2 ^ 31 then int (n mod 2 ^ 32) else int (n mod 2 ^ 32) - 2 ^ 32)"

definition curl_easy_escape :: "string \<Rightarrow> int \<Rightarrow> string option" where
  "curl_easy_escape string inlength =
     (if inlength < 0 then None
      else
        (let len = (if inlength = 0 then length (c_str string) else nat inlength);
             ns = percent_encoded (take len string)
         in if CURL_MAX_INPUT_LENGTH * 3 < length ns + 1 then None else Some ns))"

text \<open>
  \<open>operator<<\<close> of the string stream, for a string literal and for a \<open>char*\<close>: the
  C string at the pointer is appended, unless the stream has failed before; a null
  pointer makes the stream fail (the standard libraries set \<open>badbit\<close>), and nothing
  is appended to it from then on.
\<close>

definition stream_put :: "ostream \<Rightarrow> string \<Rightarrow> ostream" where
  "stream_put ss s = (if is_good ss then ss\<lparr>written := written ss @ c_str s\<rparr> else ss)"

definition stream_put_ptr :: "ostream \<Rightarrow> string option \<Rightarrow> ostream" where
  "stream_put_ptr ss p =
     (case p of None \<Rightarrow> ss\<lparr>is_good := False\<rparr> | Some s \<Rightarrow> stream_put ss s)"

text \<open>
  The loop of \<open>serialize\<close> over the entries from the iterator on: \<open>at_begin\<close> says
  whether the iterator is \<open>params.begin()\<close>, \<open>ss\<close> is the string stream. The
  pointers \<open>curl_easy_escape\<close> returns go to the stream untested. \<open>serialize\<close>
  returns what the stream holds at the end.
\<close>

fun serialize_loop :: "(string \<times> string) list \<Rightarrow> bool \<Rightarrow> ostream \<Rightarrow> ostream" where
  "serialize_loop [] at_begin ss = ss"
| "serialize_loop ((k, v) # rest) at_begin ss =
     (let ss1 = (if \<not> at_begin then stream_put ss ''&'' else ss);
          name = curl_easy_escape k (size_to_int (length k));
          val = curl_easy_escape v (size_to_int (length v));
          ss2 = stream_put_ptr (stream_put (stream_put_ptr ss1 name) ''='') val
      in serialize_loop rest False ss2)"

definition serialize :: "httpparams \<Rightarrow> string" where
  "serialize params =
     written (serialize_loop (RBT.entries params) True \<lparr>is_good = True, written = []\<rparr>)"

definition query :: "string \<Rightarrow> httpparams \<Rightarrow> string" where
  "query url params = url @ ''?'' @ serialize params"

text \<open>
  What the specification says of the output: each pair as \<open>key=value\<close>, both
  percent-encoded, and the pairs joined with \<open>&\<close> between them.
\<close>

definition encoded_pair :: "string \<times> string \<Rightarrow> string" where
  "encoded_pair kv = percent_encoded (fst kv) @ ''='' @ percent_encoded (snd kv)"

definition joined :: "string list \<Rightarrow> string" where
  "joined ps = (case ps of [] \<Rightarrow> [] | p # rest \<Rightarrow> p @ concat (map (\<lambda>q. ''&'' @ q) rest))"

text \<open>
  A mapping whose keys and values are all shorter than \<open>CURL_MAX_INPUT_LENGTH\<close>.
\<close>

definition within_limits :: "httpparams \<Rightarrow> bool" where
  "within_limits params \<longleftrightarrow>
     (\<forall>kv \<in> set (RBT.entries params).
        length (fst kv) < CURL_MAX_INPUT_LENGTH \<and> length (snd kv) < CURL_MAX_INPUT_LENGTH)"

text \<open>
  A mapping as a caller builds it, \<open>params[k] = v\<close> for each pair of a list in turn.
\<close>

definition insert_all :: "(string \<times> string) list \<Rightarrow> httpparams" where
  "insert_all kvs = fold (\<lambda>kv m. RBT.insert (fst kv) (snd kv) m) kvs RBT.empty"

section \<open>gzip compression support\<close>

text \<open>
  zlib is not part of the repository either. Its return codes, from \<open>zlib.h\<close>:
\<close>

definition Z_OK :: int where
  "Z_OK = 0"

definition Z_STREAM_END :: int where
  "Z_STREAM_END = 1"

definition Z_DATA_ERROR :: int where
  "Z_DATA_ERROR = - 3"

definition Z_BUF_ERROR :: int where
  "Z_BUF_ERROR = - 5"

text \<open>
  How the decoding of a whole input ends: at the end of a complete gzip stream, at the
  end of the input with the stream unfinished, or at a byte that is not valid.
\<close>

datatype ending = Stream_end | Need_input | Bad_data

text \<open>
  The library as a parameter: the codes of the two initialisations (they fail when
  memory runs out), the bound \<open>deflateBound\<close> computes for an input size, the gzip
  stream that deflating a whole input produces, and what inflating a whole input
  produces together with how it ends.
\<close>

record zlib =
  deflateInit2_code :: int
  inflateInit2_code :: int
  deflateBound :: "nat \<Rightarrow> nat"
  deflated :: "string \<Rightarrow> string"
  inflated :: "string \<Rightarrow> string \<times> ending"

text \<open>
  The counters \<open>avail_in\<close> and \<open>avail_out\<close> of \<open>z_stream\<close> have zlib's type
  \<open>uInt\<close>, an \<open>unsigned int\<close> of 32 bits. The code assigns them the sizes of a
  string and of a vector, which are \<open>size_t\<close> values of 64 bits: the assignment keeps
  the low 32 bits. \<open>total_out\<close> is an \<open>unsigned long\<close> and holds a size as it is.
\<close>

definition uInt :: "nat \<Rightarrow> nat" where
  "uInt n = n mod 2 ^ 32"

text \<open>
  \<open>z_stream\<close> on the output side: \<open>next_out\<close> as an offset into the destination
  buffer, \<open>avail_out\<close> and \<open>total_out\<close>. For inflation its internal state is what
  remains to be delivered of the decoded output, how the decoding ends, and whether
  the input was taken up yet. On the input side zlib reads \<open>avail_in\<close> bytes from
  \<open>next_in\<close>: the input of a stream is that many bytes from the start of the string.
\<close>

record z_stream =
  next_out :: nat
  avail_out :: nat
  total_out :: nat
  pending :: string
  final :: ending
  unread :: bool

text \<open>Storing bytes into a buffer from an offset on; the buffer keeps its size.\<close>

definition write_at :: "string \<Rightarrow> nat \<Rightarrow> string \<Rightarrow> string" where
  "write_at dest pos bytes = take pos dest @ bytes @ drop (pos + length bytes) dest"

text \<open>
  \<open>deflate(&stream, Z_FINISH)\<close> on a fresh stream with its input: all of the
  gzip stream is written and \<open>Z_STREAM_END\<close> returned if the output space suffices;
  otherwise the space is filled and the call returns \<open>Z_OK\<close> (\<open>Z_BUF_ERROR\<close> if
  there was no space at all). Returned: the code, \<open>total_out\<close> and the buffer.
\<close>

definition deflate_finish :: "zlib \<Rightarrow> string \<Rightarrow> string \<Rightarrow> nat \<Rightarrow> int \<times> nat \<times> string" where
  "deflate_finish Z input dest space =
     (let z = deflated Z input in
      if length z \<le> space then (Z_STREAM_END, length z, write_at dest 0 z)
      else if space = 0 then (Z_BUF_ERROR, 0, dest)
      else (Z_OK, space, write_at dest 0 (take space z)))"

text \<open>
  \<open>inflate(&stream, Z_SYNC_FLUSH)\<close>: as much output as fits is delivered at
  \<open>next_out\<close>. If output remains, or the input ended before the stream did, the call
  returns \<open>Z_OK\<close> when it made progress (it delivered output or took up input) and
  \<open>Z_BUF_ERROR\<close> when it made none; once everything is delivered it returns
  \<open>Z_STREAM_END\<close> at the end of the stream and \<open>Z_DATA_ERROR\<close> at invalid data.
\<close>

definition inflate :: "z_stream \<Rightarrow> string \<Rightarrow> int \<times> z_stream \<times> string" where
  "inflate stream dest =
     (let k = min (avail_out stream) (length (pending stream));
          progress = (0 < k \<or> unread stream);
          stream1 = stream\<lparr>next_out := next_out stream + k,
                           avail_out := avail_out stream - k,
                           total_out := total_out stream + k,
                           pending := drop k (pending stream),
                           unread := False\<rparr>;
          dest1 = write_at dest (next_out stream) (take k (pending stream));
          rc = (if pending stream1 \<noteq> [] \<or> final stream = Need_input
                then (if progress then Z_OK else Z_BUF_ERROR)
                else if final stream = Stream_end then Z_STREAM_END
                else Z_DATA_ERROR)
      in (rc, stream1, dest1))"

text \<open>\<open>detail::gzip\<close>.\<close>

definition gzip :: "zlib \<Rightarrow> string \<Rightarrow> error + string" where
  "gzip Z input =
     (let avail_in = uInt (length input) in
      if Z_OK \<noteq> deflateInit2_code Z then Inl (runtime_error ''error initializing deflate'')
      else
        (let maxLen = 12 + deflateBound Z (length input);
             dest = replicate maxLen (CHR 0x00);
             avail_out = uInt (length dest);
             (rc, total, dest1) = deflate_finish Z (take avail_in input) dest avail_out
         in if Z_STREAM_END \<noteq> rc then Inl (runtime_error ''failed to completely deflate'')
            else Inr (take total dest1)))"

text \<open>
  \<open>detail::gunzip\<close>: the \<open>do\<close> loop, from a stream and a destination buffer on, and
  the function around it.
\<close>

definition gunzip_measure :: "z_stream \<times> string \<Rightarrow> nat" where
  "gunzip_measure sd = 2 * length (pending (fst sd)) + (if unread (fst sd) then 1 else 0)"

function gunzip_loop :: "z_stream \<Rightarrow> string \<Rightarrow> error + string" where
  "gunzip_loop stream dest =
     (let (rc, stream1, dest1) = inflate stream dest in
      if rc = Z_OK then
        (let oldSize = length dest1;
             dest2 = dest1 @ replicate (length dest1 * 2 - length dest1) (CHR 0x00);
             stream2 = stream1\<lparr>next_out := oldSize,
                               avail_out := uInt (length dest2 - oldSize)\<rparr>
         in gunzip_loop stream2 dest2)
      else if rc \<noteq> Z_STREAM_END then Inl (runtime_error ''failed to completely inflate'')
      else Inr (take (total_out stream1) dest1))"
  by pat_completeness auto
termination
  by (relation "measure gunzip_measure")
     (auto simp: gunzip_measure_def inflate_def Let_def Z_OK_def Z_BUF_ERROR_def
        Z_STREAM_END_def Z_DATA_ERROR_def split: if_splits)

declare gunzip_loop.simps [simp del]

definition gunzip :: "zlib \<Rightarrow> string \<Rightarrow> error + string" where
  "gunzip Z input =
     (let avail_in = uInt (length input) in
      if Z_OK \<noteq> inflateInit2_code Z then Inl (runtime_error ''error initializing inflate'')
      else
        (let INIT_BUFFER_SIZE = 10240;
             dest = replicate INIT_BUFFER_SIZE (CHR 0x00);
             stream = \<lparr>next_out = 0, avail_out = uInt (length dest), total_out = 0,
                       pending = fst (inflated Z (take avail_in input)),
                       final = snd (inflated Z (take avail_in input)),
                       unread = True\<rparr>
         in gunzip_loop stream dest))"

text \<open>
  A stand-in for zlib to compute with: it frames the input with two bytes instead of
  compressing it, and rejects what does not start with them.
\<close>

definition toy_zlib :: zlib where
  "toy_zlib =
     \<lparr>deflateInit2_code = 0, inflateInit2_code = 0,
      deflateBound = (\<lambda>n. n + 2),
      deflated = (\<lambda>s. ''GZ'' @ s),
      inflated = (\<lambda>z. if take 2 z = ''GZ'' then (drop 2 z, Stream_end) else ([], Bad_data))\<rparr>"

section \<open>The request executor\<close>

text \<open>
  \<open>prepare_basic\<close>. The response and the stream are registered as the tokens
  \<open>Ptr_resp\<close> and \<open>Ptr_out\<close>; the function changes the handle only. A number is
  stored as the code passes it (libcurl reads a \<open>long\<close> where the code passes an
  \<open>int\<close>; what it reads for a negative \<open>int\<close> is not modelled).
\<close>

definition prepare_basic ::
  "libcurl \<Rightarrow> handle \<Rightarrow> string \<Rightarrow> int \<Rightarrow> bool \<Rightarrow> (error + unit) \<times> handle" where
  "prepare_basic L curl url timeout_secs accept_compression =
     (case setopts L (reset curl)
        [(CURLOPT_URL, Str (c_str url)),
         (CURLOPT_NOSIGNAL, Long 1),
         (CURLOPT_NOPROGRESS, Long 1),
         (CURLOPT_WRITEFUNCTION, Fn_streamfunc),
         (CURLOPT_WRITEDATA, Ptr_out),
         (CURLOPT_HEADERFUNCTION, Fn_headerfunc),
         (CURLOPT_HEADERDATA, Ptr_resp),
         (CURLOPT_COOKIEFILE, Str []),
         (CURLOPT_TIMEOUT, Long timeout_secs)] of
        (Inl e, curl1) \<Rightarrow> (Inl e, curl1)
      | (Inr _, curl1) \<Rightarrow>
          (Inr (), if accept_compression then add_header curl1 ''Accept-encoding: gzip''
                   else curl1))"

text \<open>
  \<open>prepare_post\<close>. \<open>CURLOPT_POSTFIELDS\<close> is given the address of the data and
  \<open>CURLOPT_POSTFIELDSIZE\<close> their size, so the body is all the bytes of \<open>data\<close>.
\<close>

definition prepare_post ::
  "libcurl \<Rightarrow> handle \<Rightarrow> string \<Rightarrow> nat \<Rightarrow> bool \<Rightarrow> (error + unit) \<times> handle" where
  "prepare_post L curl data data_size is_compressed =
     (case setopts L curl
        [(CURLOPT_POST, Long 1),
         (CURLOPT_POSTFIELDS, Str data),
         (CURLOPT_POSTFIELDSIZE, Long (int data_size))] of
        (Inl e, curl1) \<Rightarrow> (Inl e, curl1)
      | (Inr _, curl1) \<Rightarrow>
          (let curl2 = add_header curl1 ''Expect:''
           in (Inr (), if is_compressed then add_header curl2 ''Content-Encoding: gzip''
                       else curl2)))"

text \<open>\<open>process_response\<close> (it does not use the handle it is given).\<close>

definition process_response :: "zlib \<Rightarrow> httpresponse \<Rightarrow> error + httpresponse" where
  "process_response Z response =
     (case headers response ''content-encoding'' of
        None \<Rightarrow> Inr response
      | Some enc \<Rightarrow>
          if tolower enc = ''gzip''
          then (case gunzip Z (body response) of
                  Inl e \<Rightarrow> Inl e
                | Inr b \<Rightarrow> Inr (response\<lparr>body := b\<rparr>))
          else Inr response)"

text \<open>
  \<open>detail::get\<close>, \<open>detail::post\<close>. The local \<open>result\<close> starts with an empty body and
  no headers (its status is not initialised in the source and is set before it is
  returned); the local string stream starts empty.
\<close>

definition new_result :: httpresponse where
  "new_result = \<lparr>status = 0, body = [], headers = Map.empty\<rparr>"

definition ostringstream :: ostream where
  "ostringstream = \<lparr>is_good = True, written = []\<rparr>"

definition get :: "libcurl \<Rightarrow> zlib \<Rightarrow> handle \<Rightarrow> string \<Rightarrow> int \<Rightarrow> (error + httpresponse) \<times> handle" where
  "get L Z curl url timeout_secs =
     (case prepare_basic L curl url timeout_secs True of
        (Inl e, curl1) \<Rightarrow> (Inl e, curl1)
      | (Inr _, curl1) \<Rightarrow>
          (case perform L curl1 new_result ostringstream of
             (Inl e, curl2, result1, ss1) \<Rightarrow> (Inl e, curl2)
           | (Inr _, curl2, result1, ss1) \<Rightarrow>
               (case getinfo_response_code L curl2 of
                  Inl e \<Rightarrow> (Inl e, curl2)
                | Inr code \<Rightarrow>
                    (process_response Z (result1\<lparr>status := code, body := written ss1\<rparr>),
                     curl2))))"

definition post ::
  "libcurl \<Rightarrow> zlib \<Rightarrow> handle \<Rightarrow> string \<Rightarrow> string \<Rightarrow> int \<Rightarrow> (error + httpresponse) \<times> handle" where
  "post L Z curl url data timeout_secs =
     (case prepare_basic L curl url timeout_secs True of
        (Inl e, curl1) \<Rightarrow> (Inl e, curl1)
      | (Inr _, curl1) \<Rightarrow>
          (case (if length data > 10240
                 then (case gzip Z data of Inl e \<Rightarrow> Inl e | Inr z \<Rightarrow> Inr (z, True))
                 else Inr (data, False)) of
             Inl e \<Rightarrow> (Inl e, curl1)
           | Inr (data1, compressed) \<Rightarrow>
               (case prepare_post L curl1 data1 (length data1) compressed of
                  (Inl e, curl2) \<Rightarrow> (Inl e, curl2)
                | (Inr _, curl2) \<Rightarrow>
                    (case perform L curl2 new_result ostringstream of
                       (Inl e, curl3, result1, ss1) \<Rightarrow> (Inl e, curl3)
                     | (Inr _, curl3, result1, ss1) \<Rightarrow>
                         (case getinfo_response_code L curl3 of
                            Inl e \<Rightarrow> (Inl e, curl3)
                          | Inr code \<Rightarrow>
                              (process_response Z
                                 (result1\<lparr>status := code, body := written ss1\<rparr>),
                               curl3))))))"

text \<open>
  The file system as \<open>download\<close> meets it: the contents of the files that exist, and
  which paths can be opened for writing. Opening a \<open>std::ofstream\<close> with
  \<open>std::ios::trunc\<close> creates the file or empties it; where the file cannot be opened
  nothing is created, nothing is thrown and the stream is left in a failed state, which
  drops what is written to it. The stream is closed when \<open>download\<close> is left, by
  return or by exception; what was written to it is in the file from then on.
\<close>

record filesystem =
  files :: "string \<rightharpoonup> string"
  can_open :: "string \<Rightarrow> bool"

definition ofstream_open :: "filesystem \<Rightarrow> string \<Rightarrow> filesystem \<times> ostream" where
  "ofstream_open fs path =
     (if can_open fs path
      then (fs\<lparr>files := (files fs)(path \<mapsto> [])\<rparr>, \<lparr>is_good = True, written = []\<rparr>)
      else (fs, \<lparr>is_good = False, written = []\<rparr>))"

definition ofstream_close :: "filesystem \<Rightarrow> string \<Rightarrow> ostream \<Rightarrow> filesystem" where
  "ofstream_close fs path out =
     (if is_good out then fs\<lparr>files := (files fs)(path \<mapsto> written out)\<rparr> else fs)"

definition download ::
  "libcurl \<Rightarrow> filesystem \<Rightarrow> handle \<Rightarrow> string \<Rightarrow> string \<Rightarrow> int
     \<Rightarrow> (error + httpresponse) \<times> handle \<times> filesystem" where
  "download L fs curl url localpath timeout_secs =
     (let (fs1, out) = ofstream_open fs (c_str localpath) in
      case prepare_basic L curl url timeout_secs False of
        (Inl e, curl1) \<Rightarrow> (Inl e, curl1, ofstream_close fs1 (c_str localpath) out)
      | (Inr _, curl1) \<Rightarrow>
          (case perform L curl1 new_result out of
             (Inl e, curl2, result1, out1) \<Rightarrow>
               (Inl e, curl2, ofstream_close fs1 (c_str localpath) out1)
           | (Inr _, curl2, result1, out1) \<Rightarrow>
               (case getinfo_response_code L curl2 of
                  Inl e \<Rightarrow> (Inl e, curl2, ofstream_close fs1 (c_str localpath) out1)
                | Inr code \<Rightarrow>
                    (Inr (result1\<lparr>status := code\<rparr>), curl2,
                     ofstream_close fs1 (c_str localpath) out1))))"

section \<open>The client session\<close>

text \<open>\<open>class client::impl\<close> (members \<open>handle_\<close>, \<open>base_\<close>, \<open>timeout_\<close>).\<close>

record client =
  impl_handle :: handle
  impl_base :: string
  impl_timeout :: int

text \<open>
  A \<open>std::istringstream\<close>: the characters not yet read and its \<open>eofbit\<close>.
  \<open>std::getline\<close> on a stream that is not at its end takes the characters up to the
  next newline, which it removes from the stream and does not store, or up to the end
  of the data, where it sets \<open>eofbit\<close>.
\<close>

record istringstream =
  unread_chars :: string
  eofbit :: bool

fun getline :: "string \<Rightarrow> string \<times> istringstream" where
  "getline [] = ([], \<lparr>unread_chars = [], eofbit = True\<rparr>)"
| "getline (c # cs) =
     (if c = CHR 0x0A then ([], \<lparr>unread_chars = cs, eofbit = False\<rparr>)
      else (let (line, ss) = getline cs in (c # line, ss)))"

definition setcookie_measure :: "libcurl \<times> handle \<times> istringstream \<Rightarrow> nat" where
  "setcookie_measure x =
     (if eofbit (snd (snd x)) then 0 else Suc (length (unread_chars (snd (snd x)))))"

text \<open>The \<open>while\<close> loop of \<open>client::setcookie\<close>, and the member function.\<close>

function setcookie_loop :: "libcurl \<Rightarrow> handle \<Rightarrow> istringstream \<Rightarrow> (error + unit) \<times> handle" where
  "setcookie_loop L h ss =
     (if \<not> eofbit ss then
        (let (line, ss1) = getline (unread_chars ss) in
         case setopt L h CURLOPT_COOKIELIST (Str (c_str line)) of
           (Inl e, h1) \<Rightarrow> (Inl e, h1)
         | (Inr _, h1) \<Rightarrow> setcookie_loop L h1 ss1)
      else (Inr (), h))"
  by pat_completeness auto
termination
proof (relation "measure setcookie_measure")
  show "wf (measure setcookie_measure)"
    by simp
next
  fix L :: libcurl and h h1 :: handle and ss ss1 :: istringstream
  fix x :: "string \<times> istringstream" and line :: string
  assume "\<not> eofbit ss" and "x = getline (unread_chars ss)" and "(line, ss1) = x"
  then have g: "getline (unread_chars ss) = (line, ss1)"
    by simp
  have "getline s = (l, t) \<Longrightarrow> \<not> eofbit t \<Longrightarrow> length (unread_chars t) < length s"
    for s l t
    by (induction s arbitrary: l t) (auto split: if_splits prod.splits)
  from this [OF g] \<open>\<not> eofbit ss\<close>
  show "((L, h1, ss1), L, h, ss) \<in> measure setcookie_measure"
    by (auto simp: setcookie_measure_def)
qed

declare setcookie_loop.simps [simp del]

definition setcookie :: "libcurl \<Rightarrow> client \<Rightarrow> string \<Rightarrow> (error + unit) \<times> client" where
  "setcookie L c data =
     (case setopt L (impl_handle c) CURLOPT_COOKIELIST (Str ''ALL'') of
        (Inl e, h1) \<Rightarrow> (Inl e, c\<lparr>impl_handle := h1\<rparr>)
      | (Inr _, h1) \<Rightarrow>
          (case setcookie_loop L h1 \<lparr>unread_chars = data, eofbit = False\<rparr> of
             (r, h2) \<Rightarrow> (r, c\<lparr>impl_handle := h2\<rparr>)))"

text \<open>The request members of \<open>client\<close>: the path is appended to the base URL.\<close>

definition client_get :: "libcurl \<Rightarrow> zlib \<Rightarrow> client \<Rightarrow> string \<Rightarrow> (error + httpresponse) \<times> client" where
  "client_get L Z c path =
     (case get L Z (impl_handle c) (impl_base c @ path) (impl_timeout c) of
        (r, h) \<Rightarrow> (r, c\<lparr>impl_handle := h\<rparr>))"

definition client_post ::
  "libcurl \<Rightarrow> zlib \<Rightarrow> client \<Rightarrow> string \<Rightarrow> string \<Rightarrow> (error + httpresponse) \<times> client" where
  "client_post L Z c path data =
     (case post L Z (impl_handle c) (impl_base c @ path) data (impl_timeout c) of
        (r, h) \<Rightarrow> (r, c\<lparr>impl_handle := h\<rparr>))"

definition client_download ::
  "libcurl \<Rightarrow> filesystem \<Rightarrow> client \<Rightarrow> string \<Rightarrow> string
     \<Rightarrow> (error + httpresponse) \<times> client \<times> filesystem" where
  "client_download L fs c path localpath =
     (case download L fs (impl_handle c) (impl_base c @ path) localpath (impl_timeout c) of
        (r, h, fs1) \<Rightarrow> (r, c\<lparr>impl_handle := h\<rparr>, fs1))"

section \<open>Notions of the specification\<close>

text \<open>
  The lines of a text: the pieces between its newline characters, so a text with \<open>n\<close>
  newlines has \<open>n + 1\<close> lines, some of which may be empty. \<open>join_lines\<close> puts the
  newlines back.
\<close>

fun split_lines :: "string \<Rightarrow> string list" where
  "split_lines [] = [[]]"
| "split_lines (c # cs) =
     (if c = CHR 0x0A then [] # split_lines cs
      else (case split_lines cs of [] \<Rightarrow> [[c]] | l # ls \<Rightarrow> (c # l) # ls))"

fun join_lines :: "string list \<Rightarrow> string" where
  "join_lines [] = []"
| "join_lines [l] = l"
| "join_lines (l # ls) = l @ CHR 0x0A # join_lines ls"

text \<open>The handle after its cookie engine was given the lines \<open>ls\<close>.\<close>

definition replay :: "handle \<Rightarrow> string list \<Rightarrow> handle" where
  "replay h ls = h\<lparr>handle_p := (handle_p h)\<lparr>cookielist := cookielist (handle_p h) @ ls\<rparr>\<rparr>"

text \<open>A client on a new handle.\<close>

definition new_client :: client where
  "new_client = \<lparr>impl_handle = new_handle, impl_base = ''http://example.com'', impl_timeout = 30\<rparr>"

text \<open>
  The values an easy handle holds for an option: those stored since its last reset,
  oldest first. A handle with further options stored.
\<close>

definition option_values :: "CURL \<Rightarrow> CURLoption \<Rightarrow> optval list" where
  "option_values c opt = map snd (filter (\<lambda>ov. fst ov = opt) (options c))"

definition configured :: "handle \<Rightarrow> (CURLoption \<times> optval) list \<Rightarrow> handle" where
  "configured h ovs = h\<lparr>handle_p := (handle_p h)\<lparr>options := options (handle_p h) @ ovs\<rparr>\<rparr>"

text \<open>
  A host that cannot be reached: whatever the handle asks for, the transfer delivers
  no header line and no body and ends with the resolver's or the connection's code.
\<close>

definition unreachable :: "libcurl \<Rightarrow> bool" where
  "unreachable L \<longleftrightarrow>
     (\<forall>c. header_lines (run_transfer L c) = [] \<and> body_chunks (run_transfer L c) = []
        \<and> (result_code (run_transfer L c) = CURLE_COULDNT_RESOLVE_HOST
             \<or> result_code (run_transfer L c) = CURLE_COULDNT_CONNECT))"

text \<open>The options every request stores first, for a URL and a timeout.\<close>

definition basic_options :: "string \<Rightarrow> int \<Rightarrow> (CURLoption \<times> optval) list" where
  "basic_options url timeout_secs =
     [(CURLOPT_URL, Str (c_str url)), (CURLOPT_NOSIGNAL, Long 1), (CURLOPT_NOPROGRESS, Long 1),
      (CURLOPT_WRITEFUNCTION, Fn_streamfunc), (CURLOPT_WRITEDATA, Ptr_out),
      (CURLOPT_HEADERFUNCTION, Fn_headerfunc), (CURLOPT_HEADERDATA, Ptr_resp),
      (CURLOPT_COOKIEFILE, Str []), (CURLOPT_TIMEOUT, Long timeout_secs)]"

text \<open>
  A file system with no file in which nothing can be opened for writing (a path into
  a directory that does not exist is such a path); one with no file in which every
  path can be opened.
\<close>

definition closed_filesystem :: filesystem where
  "closed_filesystem = \<lparr>files = Map.empty, can_open = (\<lambda>path. False)\<rparr>"

definition open_filesystem :: filesystem where
  "open_filesystem = \<lparr>files = Map.empty, can_open = (\<lambda>path. True)\<rparr>"

text \<open>A library in which every \<open>curl_easy_setopt\<close> fails with the given code.\<close>

definition lib_setopt_fails :: "int \<Rightarrow> libcurl" where
  "lib_setopt_fails code =
     \<lparr>setopt_code = (\<lambda>opt v. code), run_transfer = (\<lambda>c. no_answer 0),
      getinfo_code = (\<lambda>c. CURLE_OK)\<rparr>"

section \<open>Properties of the string helpers\<close>

lemma find_if_le: "find_if P s \<le> length s"
  by (induction s) auto

lemma find_if_takeWhile: "find_if P s = length (takeWhile (\<lambda>c. \<not> P c) s)"
  by (induction s) auto

lemma find_char_None: "find_char s c = None \<longleftrightarrow> c \<notin> set s"
proof -
  have "find_if (\<lambda>x. x = c) s = length s \<longleftrightarrow> c \<notin> set s"
    by (induction s) auto
  moreover have "find_if (\<lambda>x. x = c) s \<le> length s"
    by (rule find_if_le)
  ultimately show ?thesis
    by (auto simp: find_char_def Let_def)
qed

lemma find_char_first:
  assumes "c \<notin> set pre"
  shows "find_char (pre @ c # rest) c = Some (length pre)"
proof -
  from assms have "find_if (\<lambda>x. x = c) (pre @ c # rest) = length pre"
    by (induction pre) auto
  then show ?thesis
    by (simp add: find_char_def)
qed

lemma ltrim_dropWhile: "ltrim s = dropWhile isspace s"
  unfolding ltrim_def by (induction s) auto

lemma rtrim_dropWhile: "rtrim s = rev (dropWhile isspace (rev s))"
proof -
  let ?k = "find_if (\<lambda>c. \<not> isspace c) (rev s)"
  have k: "?k = length (takeWhile isspace (rev s))"
    by (simp add: find_if_takeWhile)
  have "rev (dropWhile isspace (rev s)) = rev (drop ?k (rev s))"
    by (simp add: k dropWhile_eq_drop)
  also have "\<dots> = take (length s - ?k) s"
    by (simp add: rev_drop)
  finally show ?thesis
    by (simp add: rtrim_def)
qed

lemma trim_dropWhile:
  "trim s = dropWhile isspace (rev (dropWhile isspace (rev s)))"
  by (simp add: trim_def ltrim_dropWhile rtrim_dropWhile)

section \<open>Error mapping of perform\<close>

text \<open>
  C1. Whenever \<open>perform\<close> gets to run the transfer (storing the header list did not
  fail), its outcome is decided by the code of the transfer alone: success returns
  normally; the timeout code raises \<open>timeout\<close>, the resolver code \<open>resolve_error\<close>,
  the connection code \<open>connect_error\<close>; every other code \<open>c\<close> raises
  \<open>curl_error c\<close>. A resolver failure is never a \<open>curl_error\<close>.
\<close>

theorem perform_error_mapping:
  assumes "setopt_code L CURLOPT_HTTPHEADER (Slist (headers_p h)) = CURLE_OK"
  shows "(transport_code L h = CURLE_OK \<longrightarrow> fst (perform L h resp out) = Inr ())
       \<and> (transport_code L h = CURLE_OPERATION_TIMEDOUT \<longrightarrow>
            fst (perform L h resp out) = Inl timeout)
       \<and> (transport_code L h = CURLE_COULDNT_RESOLVE_HOST \<longrightarrow>
            fst (perform L h resp out) = Inl resolve_error
            \<and> (\<forall>n. fst (perform L h resp out) \<noteq> Inl (curl_error n)))
       \<and> (transport_code L h = CURLE_COULDNT_CONNECT \<longrightarrow>
            fst (perform L h resp out) = Inl connect_error)
       \<and> (transport_code L h \<notin> {CURLE_OK, CURLE_OPERATION_TIMEDOUT,
              CURLE_COULDNT_RESOLVE_HOST, CURLE_COULDNT_CONNECT} \<longrightarrow>
            fst (perform L h resp out) = Inl (curl_error (transport_code L h)))"
  using assms
  by (simp add: perform_def setopt_def curl_easy_setopt_def curl_easy_perform_def
      transport_code_def Let_def CURLE_OK_def CURLE_OPERATION_TIMEDOUT_def CURLE_COULDNT_RESOLVE_HOST_def
      CURLE_COULDNT_CONNECT_def)


theorem perform_error_mapping_witness:
  "setopt_code (lib_const (no_answer 6)) CURLOPT_HTTPHEADER (Slist (headers_p new_handle)) = CURLE_OK
   \<and> transport_code (lib_const (no_answer 6)) new_handle = CURLE_COULDNT_RESOLVE_HOST
   \<and> fst (perform (lib_const (no_answer 6)) new_handle empty_response
          \<lparr>is_good = True, written = []\<rparr>) = Inl resolve_error"
  using perform_error_mapping [of "lib_const (no_answer 6)" new_handle empty_response
      "\<lparr>is_good = True, written = []\<rparr>"]
  by (simp add: lib_const_def no_answer_def transport_code_def curl_easy_setopt_def
      curl_easy_perform_def CURLE_COULDNT_RESOLVE_HOST_def)

section \<open>Header parsing\<close>

lemma trim_spec:
  "\<exists>ws1 ws2. s = ws1 @ trim s @ ws2 \<and> (\<forall>c \<in> set ws1. isspace c) \<and> (\<forall>c \<in> set ws2. isspace c)
     \<and> (trim s \<noteq> [] \<longrightarrow> \<not> isspace (hd (trim s)) \<and> \<not> isspace (last (trim s)))"
proof -
  let ?r = "rev (dropWhile isspace (rev s))"
  let ?ws2 = "rev (takeWhile isspace (rev s))"
  let ?ws1 = "takeWhile isspace ?r"
  have t: "trim s = dropWhile isspace ?r"
    by (simp add: trim_dropWhile)
  have "s = ?r @ ?ws2"
    by (metis rev_append rev_rev_ident takeWhile_dropWhile_id)
  moreover have r: "?r = ?ws1 @ trim s"
    by (simp add: t)
  ultimately have "s = ?ws1 @ trim s @ ?ws2"
    by (metis append.assoc)
  moreover have "\<forall>c \<in> set ?ws1. isspace c"
    by (metis set_takeWhileD)
  moreover have "\<forall>c \<in> set ?ws2. isspace c"
    by (metis set_rev set_takeWhileD)
  moreover have "trim s \<noteq> [] \<longrightarrow> \<not> isspace (hd (trim s))"
    unfolding t by (metis hd_dropWhile)
  moreover have "trim s \<noteq> [] \<longrightarrow> \<not> isspace (last (trim s))"
  proof
    assume ne: "trim s \<noteq> []"
    then have rne: "?r \<noteq> []"
      unfolding t by (metis dropWhile.simps(1))
    then have "dropWhile isspace (rev s) \<noteq> []"
      by simp
    then have "\<not> isspace (hd (dropWhile isspace (rev s)))"
      by (rule hd_dropWhile)
    then have "\<not> isspace (last ?r)"
      using rne by (simp add: last_rev)
    moreover have "last (trim s) = last ?r"
      using ne r by (metis last_appendR)
    ultimately show "\<not> isspace (last (trim s))"
      by simp
  qed
  ultimately show ?thesis
    by blast
qed

lemma headerfunc_colon:
  assumes "CHR '':'' \<notin> set pre"
  shows "headerfunc (pre @ CHR '':'' # rest) resp =
           (length (pre @ CHR '':'' # rest),
            resp\<lparr>headers := (headers resp)(tolower pre \<mapsto> trim rest)\<rparr>)"
  using find_char_first [OF assms, of rest]
  by (simp add: headerfunc_def substr_def substr_from_def)

lemma headerfunc_no_colon:
  assumes "CHR '':'' \<notin> set line"
  shows "headerfunc line resp = (length line, resp)"
proof -
  from assms have "find_char line (CHR '':'') = None"
    by (simp add: find_char_None)
  then show ?thesis
    by (simp add: headerfunc_def)
qed

lemma content_type_line:
  "find_char (''Content-Type: text/html; charset=utf-8'' @ [CHR 0x0D, CHR 0x0A]) (CHR '':'') = Some 12"
  "tolower ''Content-Type'' = ''content-type''"
  "trim ('' text/html; charset=utf-8'' @ [CHR 0x0D, CHR 0x0A]) = ''text/html; charset=utf-8''"
  by code_simp+

text \<open>
  C4. A line with a colon is split at its first colon: the part before it, lower-cased
  character by character, is the name, and the part after it without its leading and
  trailing whitespace is the value stored under that name, in place of whatever was
  stored there (of two lines with the same name the second one wins). A line with no
  colon leaves the response as it is. Both return the length of the line. The line
  \<open>Content-Type: text/html; charset=utf-8\<close> followed by CR LF is stored as
  \<open>content-type\<close> with the value \<open>text/html; charset=utf-8\<close>.
\<close>

theorem headerfunc_spec:
  "(CHR '':'' \<notin> set pre \<longrightarrow>
      fst (headerfunc (pre @ CHR '':'' # rest) resp) = length (pre @ CHR '':'' # rest)
    \<and> snd (headerfunc (pre @ CHR '':'' # rest) resp) =
        resp\<lparr>headers := (headers resp)(map tolower_char pre \<mapsto> trim rest)\<rparr>
    \<and> (\<exists>ws1 ws2. rest = ws1 @ trim rest @ ws2
          \<and> (\<forall>c \<in> set ws1. isspace c) \<and> (\<forall>c \<in> set ws2. isspace c)
          \<and> (trim rest \<noteq> [] \<longrightarrow> \<not> isspace (hd (trim rest)) \<and> \<not> isspace (last (trim rest))))
    \<and> (CHR '':'' \<notin> set pre' \<and> map tolower_char pre' = map tolower_char pre \<longrightarrow>
          headers (snd (headerfunc (pre' @ CHR '':'' # rest')
                     (snd (headerfunc (pre @ CHR '':'' # rest) resp))))
            (map tolower_char pre) = Some (trim rest')))
   \<and> (CHR '':'' \<notin> set line \<longrightarrow> headerfunc line resp = (length line, resp))
   \<and> headers (snd (headerfunc (''Content-Type: text/html; charset=utf-8'' @ [CHR 0x0D, CHR 0x0A])
        resp)) ''content-type'' = Some ''text/html; charset=utf-8''"
proof -
  have "headers (snd (headerfunc (''Content-Type: text/html; charset=utf-8'' @ [CHR 0x0D, CHR 0x0A])
        resp)) ''content-type'' = Some ''text/html; charset=utf-8''"
    using headerfunc_colon [of "''Content-Type''" "'' text/html; charset=utf-8'' @ [CHR 0x0D, CHR 0x0A]" resp]
    by (simp add: content_type_line(2) content_type_line(3) [simplified])
  moreover have "CHR '':'' \<notin> set line \<longrightarrow> headerfunc line resp = (length line, resp)"
    by (simp add: headerfunc_no_colon)
  moreover have "CHR '':'' \<notin> set pre \<Longrightarrow> CHR '':'' \<notin> set pre' \<Longrightarrow>
      map tolower_char pre' = map tolower_char pre \<Longrightarrow>
      headers (snd (headerfunc (pre' @ CHR '':'' # rest')
                     (snd (headerfunc (pre @ CHR '':'' # rest) resp))))
            (map tolower_char pre) = Some (trim rest')"
    by (simp add: headerfunc_colon tolower_def)
  ultimately show ?thesis
    using trim_spec [of rest]
    by (simp add: headerfunc_colon tolower_def)
qed

theorem headerfunc_spec_witness:
  "CHR '':'' \<notin> set ''Host'' \<and> CHR '':'' \<notin> set ''HTTP/1.1 200 OK''
   \<and> headers (snd (headerfunc (''Host'' @ CHR '':'' # '' b'')
          (snd (headerfunc (''Host'' @ CHR '':'' # '' a '') empty_response))))
        (map tolower_char ''Host'') = Some (trim '' b'')
   \<and> headerfunc ''HTTP/1.1 200 OK'' empty_response = (length ''HTTP/1.1 200 OK'', empty_response)"
proof -
  have a: "CHR '':'' \<notin> set ''Host''" and b: "CHR '':'' \<notin> set ''HTTP/1.1 200 OK''"
    by simp_all
  note spec = headerfunc_spec [of "''Host''" "'' a ''" empty_response "''Host''" "'' b''"
      "''HTTP/1.1 200 OK''"]
  from spec a have "headers (snd (headerfunc (''Host'' @ CHR '':'' # '' b'')
          (snd (headerfunc (''Host'' @ CHR '':'' # '' a '') empty_response))))
        (map tolower_char ''Host'') = Some (trim '' b'')"
    by blast
  moreover from spec b
  have "headerfunc ''HTTP/1.1 200 OK'' empty_response = (length ''HTTP/1.1 200 OK'', empty_response)"
    by blast
  ultimately show ?thesis
    using a b by blast
qed

section \<open>Parameter serialization\<close>

lemma of_char_less_256: "(of_char c :: nat) < 256"
  by (cases c) (simp add: of_char_def horner_sum_eq_sum)

lemma hexdigit_range: "n < 16 \<Longrightarrow> hexdigit n \<in> set ''0123456789ABCDEF''"
  unfolding hexdigit_def by (rule nth_mem) simp

lemma not_in_escape_char:
  assumes "\<not> isunreserved x" and "x \<noteq> CHR ''%''" and "x \<notin> set ''0123456789ABCDEF''"
  shows "x \<notin> set (escape_char c)"
proof (cases "isunreserved c")
  case True
  with assms(1) have "c \<noteq> x"
    by auto
  with True show ?thesis
    by (simp add: escape_char_def)
next
  case False
  have "(of_char c :: nat) div 16 < 16" "(of_char c :: nat) mod 16 < 16"
    using of_char_less_256 [of c] by (simp_all add: less_mult_imp_div_less)
  then have "hexdigit ((of_char c :: nat) div 16) \<in> set ''0123456789ABCDEF''"
    "hexdigit ((of_char c :: nat) mod 16) \<in> set ''0123456789ABCDEF''"
    by (simp_all only: hexdigit_range)
  with assms(3) have "hexdigit ((of_char c :: nat) div 16) \<noteq> x"
    "hexdigit ((of_char c :: nat) mod 16) \<noteq> x"
    by blast+
  with False assms(2) show ?thesis
    by (auto simp: escape_char_def)
qed

lemma special_not_unreserved:
  "\<not> isunreserved (CHR ''&'')" "\<not> isunreserved (CHR 0x00)"
  by code_simp+

lemma amp_not_in_escape: "CHR ''&'' \<notin> set (percent_encoded s)"
  by (simp add: percent_encoded_def not_in_escape_char special_not_unreserved)

lemma zero_not_in_escape: "CHR 0x00 \<notin> set (percent_encoded s)"
  by (simp add: percent_encoded_def not_in_escape_char special_not_unreserved)

lemma c_str_percent_encoded: "c_str (percent_encoded s) = percent_encoded s"
  unfolding c_str_def using zero_not_in_escape [of s]
  by simp metis

lemma length_escape_char: "length (escape_char c) \<le> 3"
  by (simp add: escape_char_def)

lemma length_percent_encoded: "length (percent_encoded s) \<le> 3 * length s"
proof (induction s)
  case Nil
  show ?case by (simp add: percent_encoded_def)
next
  case (Cons c s)
  with length_escape_char [of c] show ?case
    by (simp add: percent_encoded_def)
qed

lemma size_to_int_small: "n < 2 ^ 31 \<Longrightarrow> size_to_int n = int n"
  by (simp add: size_to_int_def)

lemma curl_easy_escape_ok:
  assumes "length s < CURL_MAX_INPUT_LENGTH"
  shows "curl_easy_escape s (size_to_int (length s)) = Some (percent_encoded s)"
proof -
  from assms have l: "length s < 8000000"
    by (simp add: CURL_MAX_INPUT_LENGTH_def)
  then have i: "size_to_int (length s) = int (length s)"
    by (intro size_to_int_small) simp
  show ?thesis
  proof (cases "s = []")
    case True
    then show ?thesis
      by (simp add: curl_easy_escape_def size_to_int_def c_str_def percent_encoded_def
          CURL_MAX_INPUT_LENGTH_def)
  next
    case False
    from l length_percent_encoded [of s] have "length (percent_encoded s) + 1 \<le> 8000000 * 3"
      by simp
    with False show ?thesis
      by (simp add: curl_easy_escape_def i CURL_MAX_INPUT_LENGTH_def)
  qed
qed

lemma c_str_literals':
  "c_str ''&'' = ''&''" "c_str ''='' = ''=''"
  by (simp_all add: c_str_def)

lemma serialize_loop_False:
  assumes "\<forall>kv \<in> set es. length (fst kv) < CURL_MAX_INPUT_LENGTH
              \<and> length (snd kv) < CURL_MAX_INPUT_LENGTH"
    and "is_good ss"
  shows "serialize_loop es False ss =
           ss\<lparr>written := written ss @ concat (map (\<lambda>e. ''&'' @ encoded_pair e) es)\<rparr>"
  using assms
proof (induction es arbitrary: ss)
  case Nil
  show ?case by simp
next
  case (Cons e es)
  obtain k v where e: "e = (k, v)"
    by (cases e)
  with Cons.prems have "curl_easy_escape k (size_to_int (length k)) = Some (percent_encoded k)"
    "curl_easy_escape v (size_to_int (length v)) = Some (percent_encoded v)"
    by (simp_all add: curl_easy_escape_ok)
  with Cons.prems Cons.IH show ?case
    by (simp add: e stream_put_def stream_put_ptr_def c_str_literals' c_str_percent_encoded
        encoded_pair_def)
qed

lemma serialize_loop_True:
  assumes "\<forall>kv \<in> set es. length (fst kv) < CURL_MAX_INPUT_LENGTH
              \<and> length (snd kv) < CURL_MAX_INPUT_LENGTH"
  shows "serialize_loop es True \<lparr>is_good = True, written = []\<rparr> =
           \<lparr>is_good = True, written = joined (map encoded_pair es)\<rparr>"
proof (cases es)
  case Nil
  then show ?thesis by (simp add: joined_def)
next
  case (Cons e es')
  obtain k v where e: "e = (k, v)"
    by (cases e)
  with Cons assms have "curl_easy_escape k (size_to_int (length k)) = Some (percent_encoded k)"
    "curl_easy_escape v (size_to_int (length v)) = Some (percent_encoded v)"
    by (simp_all add: curl_easy_escape_ok)
  moreover from Cons assms
  have "\<forall>kv \<in> set es'. length (fst kv) < CURL_MAX_INPUT_LENGTH
              \<and> length (snd kv) < CURL_MAX_INPUT_LENGTH"
    by simp
  ultimately show ?thesis
    by (simp add: Cons e stream_put_def stream_put_ptr_def c_str_literals' c_str_percent_encoded
        encoded_pair_def joined_def serialize_loop_False comp_def)
qed

lemma serialize_entries:
  "within_limits params \<Longrightarrow> serialize params = joined (map encoded_pair (RBT.entries params))"
  by (simp add: serialize_def within_limits_def serialize_loop_True)

lemma count_amp_pair: "count_list (encoded_pair e) (CHR ''&'') = 0"
  by (simp add: encoded_pair_def amp_not_in_escape count_list_0_iff)

lemma count_list_concat_amp:
  "count_list (concat (map (\<lambda>e. CHR ''&'' # encoded_pair e) es)) (CHR ''&'') = length es"
  by (induction es) (simp_all add: count_amp_pair)

lemma count_amp_joined:
  "count_list (joined (map encoded_pair es)) (CHR ''&'') = length es - 1"
  by (cases es) (simp_all add: joined_def count_amp_pair count_list_concat_amp comp_def)

lemma joined_example:
  "joined (map encoded_pair [(''a'', ''1''), (''b'', ''2 3'')]) = ''a=1&b=2%203''"
  by code_simp

lemma entries_example:
  "RBT.entries (RBT.insert ''b'' ''2 3'' (RBT.insert ''a'' ''1'' RBT.empty)) =
     [(''a'', ''1''), (''b'', ''2 3'')]"
  by code_simp

lemma within_limits_example:
  "within_limits (RBT.insert ''b'' ''2 3'' (RBT.insert ''a'' ''1'' RBT.empty))"
  by (simp add: within_limits_def entries_example CURL_MAX_INPUT_LENGTH_def)

lemma serialize_example:
  "serialize (RBT.insert ''b'' ''2 3'' (RBT.insert ''a'' ''1'' RBT.empty)) = ''a=1&b=2%203''"
  using serialize_entries [OF within_limits_example]
  by (simp only: entries_example joined_example)

lemma entries_empty: "RBT.entries (RBT.empty :: httpparams) = []"
  by code_simp

text \<open>
  C8, amended. For a mapping whose keys and values are all shorter than
  \<open>CURL_MAX_INPUT_LENGTH\<close>, \<open>serialize\<close> returns the pairs of the mapping, each as
  the percent-encoded key, \<open>=\<close> and the percent-encoded value, with one \<open>&\<close>
  between two pairs and none after the last: the output has one \<open>&\<close> less than the
  mapping has pairs. The empty mapping gives the empty string, and the mapping of
  \<open>a\<close> to \<open>1\<close> and \<open>b\<close> to \<open>2 3\<close> gives \<open>a=1&b=2%203\<close>. \<open>query\<close> returns
  the URL, \<open>?\<close> and the serialized parameters.
\<close>

theorem serialize_spec:
  "(within_limits params \<longrightarrow>
      serialize params = joined (map encoded_pair (RBT.entries params))
    \<and> count_list (serialize params) (CHR ''&'') = length (RBT.entries params) - 1)
   \<and> serialize RBT.empty = []
   \<and> serialize (RBT.insert ''b'' ''2 3'' (RBT.insert ''a'' ''1'' RBT.empty)) = ''a=1&b=2%203''
   \<and> query url params = url @ ''?'' @ serialize params"
proof -
  have a: "within_limits params \<longrightarrow>
      serialize params = joined (map encoded_pair (RBT.entries params))
    \<and> count_list (serialize params) (CHR ''&'') = length (RBT.entries params) - 1"
    by (simp add: serialize_entries count_amp_joined)
  have b: "serialize RBT.empty = []"
    by (simp add: serialize_def entries_empty)
  have c: "query url params = url @ ''?'' @ serialize params"
    by (simp only: query_def)
  show ?thesis
    by (intro conjI) (fact a b serialize_example c)+
qed

theorem serialize_spec_witness:
  "within_limits (RBT.insert ''b'' ''2 3'' (RBT.insert ''a'' ''1'' RBT.empty))
   \<and> serialize (RBT.insert ''b'' ''2 3'' (RBT.insert ''a'' ''1'' RBT.empty)) =
       joined (map encoded_pair
         (RBT.entries (RBT.insert ''b'' ''2 3'' (RBT.insert ''a'' ''1'' RBT.empty))))
   \<and> count_list (serialize (RBT.insert ''b'' ''2 3'' (RBT.insert ''a'' ''1'' RBT.empty)))
        (CHR ''&'') =
       length (RBT.entries (RBT.insert ''b'' ''2 3'' (RBT.insert ''a'' ''1'' RBT.empty))) - 1"
  using serialize_spec [of "RBT.insert ''b'' ''2 3'' (RBT.insert ''a'' ''1'' RBT.empty)"]
    within_limits_example
  by blast

lemma entries3:
  "RBT.entries (insert_all [(''a'', ''1''), (''k'', v), (''z'', ''9'')]) =
     [(''a'', ''1''), (''k'', v), (''z'', ''9'')]"
  by code_simp

lemma entries2:
  "RBT.entries (insert_all [(''b'', ''2''), (''a'', v)]) = [(''a'', v), (''b'', ''2'')]"
  by code_simp

lemma escape_space: "escape_char (CHR '' '') = ''%20''"
  by code_simp

lemma length_encoded_spaces: "length (percent_encoded (replicate n (CHR '' ''))) = 3 * n"
  by (induction n) (simp_all add: percent_encoded_def escape_space)

lemma curl_easy_escape_too_long:
  "curl_easy_escape (replicate 8000000 (CHR '' ''))
     (size_to_int (length (replicate 8000000 (CHR '' '')))) = None"
  by (simp add: curl_easy_escape_def size_to_int_def length_encoded_spaces
      CURL_MAX_INPUT_LENGTH_def)

lemma curl_easy_escape_samples:
  "curl_easy_escape ''a'' (size_to_int (length ''a'')) = Some ''a''"
  "curl_easy_escape ''1'' (size_to_int (length ''1'')) = Some ''1''"
  "curl_easy_escape ''k'' (size_to_int (length ''k'')) = Some ''k''"
  "curl_easy_escape ''z'' (size_to_int (length ''z'')) = Some ''z''"
  "curl_easy_escape ''9'' (size_to_int (length ''9'')) = Some ''9''"
  "curl_easy_escape ''b'' (size_to_int (length ''b'')) = Some ''b''"
  "curl_easy_escape ''2'' (size_to_int (length ''2'')) = Some ''2''"
proof -
  have e: "percent_encoded ''a'' = ''a''" "percent_encoded ''1'' = ''1''"
    "percent_encoded ''k'' = ''k''" "percent_encoded ''z'' = ''z''"
    "percent_encoded ''9'' = ''9''" "percent_encoded ''b'' = ''b''"
    "percent_encoded ''2'' = ''2''"
    by code_simp+
  show "curl_easy_escape ''a'' (size_to_int (length ''a'')) = Some ''a''"
    "curl_easy_escape ''1'' (size_to_int (length ''1'')) = Some ''1''"
    "curl_easy_escape ''k'' (size_to_int (length ''k'')) = Some ''k''"
    "curl_easy_escape ''z'' (size_to_int (length ''z'')) = Some ''z''"
    "curl_easy_escape ''9'' (size_to_int (length ''9'')) = Some ''9''"
    "curl_easy_escape ''b'' (size_to_int (length ''b'')) = Some ''b''"
    "curl_easy_escape ''2'' (size_to_int (length ''2'')) = Some ''2''"
    using curl_easy_escape_ok [of "''a''"] curl_easy_escape_ok [of "''1''"]
      curl_easy_escape_ok [of "''k''"] curl_easy_escape_ok [of "''z''"]
      curl_easy_escape_ok [of "''9''"] curl_easy_escape_ok [of "''b''"]
      curl_easy_escape_ok [of "''2''"]
    by (simp_all add: e CURL_MAX_INPUT_LENGTH_def)
qed

text \<open>
  C8 as stated fails for a mapping with a value of 8000000 spaces: the mapping has
  three pairs, and \<open>serialize\<close> returns the first pair and the key of the second.
\<close>

theorem serialize_truncated_counterexample:
  "RBT.entries (insert_all [(''a'', ''1''), (''k'', replicate 8000000 (CHR '' '')), (''z'', ''9'')]) =
     [(''a'', ''1''), (''k'', replicate 8000000 (CHR '' '')), (''z'', ''9'')]
   \<and> serialize (insert_all [(''a'', ''1''), (''k'', replicate 8000000 (CHR '' '')), (''z'', ''9'')]) =
       ''a=1&k=''"
proof -
  have "serialize_loop
      [(''a'', ''1''), (''k'', replicate 8000000 (CHR '' '')), (''z'', ''9'')] True
      \<lparr>is_good = True, written = []\<rparr> = \<lparr>is_good = False, written = ''a=1&k=''\<rparr>"
    by (simp add: curl_easy_escape_samples [simplified] curl_easy_escape_too_long [simplified]
        stream_put_def stream_put_ptr_def c_str_def)
  then show ?thesis
    by (simp add: serialize_def entries3)
qed

lemma serialize_cong: "RBT.lookup p1 = RBT.lookup p2 \<Longrightarrow> serialize p1 = serialize p2"
  using entries_lookup [of p1 p2] by (simp add: serialize_def)

lemma lookup_fold_insert:
  "RBT.lookup (fold (\<lambda>kv m. RBT.insert (fst kv) (snd kv) m) kvs t) =
     RBT.lookup t ++ map_of (rev kvs)"
  by (induction kvs arbitrary: t) (auto simp: map_add_def fun_eq_iff split: option.splits)

lemma lookup_insert_all: "RBT.lookup (insert_all kvs) = map_of (rev kvs)"
  by (simp add: insert_all_def lookup_fold_insert)

lemma insert_all_order:
  assumes "distinct (map fst kvs)" "distinct (map fst kvs')" "set kvs = set kvs'"
  shows "serialize (insert_all kvs) = serialize (insert_all kvs')"
proof (rule serialize_cong)
  have "map_of (rev kvs) k = map_of (rev kvs') k" for k
  proof (cases "map_of (rev kvs) k")
    case None
    then have "k \<notin> fst ` set kvs"
      by (simp add: map_of_eq_None_iff)
    with assms(3) have "k \<notin> fst ` set kvs'"
      by simp
    then have "map_of (rev kvs') k = None"
      by (simp add: map_of_eq_None_iff)
    with None show ?thesis
      by simp
  next
    case (Some v)
    then have "(k, v) \<in> set (rev kvs)"
      by (rule map_of_SomeD)
    with assms(3) have "(k, v) \<in> set (rev kvs')"
      by simp
    moreover from assms(2) have "distinct (map fst (rev kvs'))"
      by (metis distinct_rev rev_map)
    ultimately have "map_of (rev kvs') k = Some v"
      by simp
    with Some show ?thesis
      by simp
  qed
  then show "RBT.lookup (insert_all kvs) = RBT.lookup (insert_all kvs')"
    by (simp add: lookup_insert_all fun_eq_iff)
qed

lemma entries4:
  "RBT.entries (insert_all [(''b'', ''2''), (''ab'', ''x''), (''a'', ''1''), (''B'', ''y'')]) =
     [(''B'', ''y''), (''a'', ''1''), (''ab'', ''x''), (''b'', ''2'')]"
  by code_simp

lemma joined4:
  "joined (map encoded_pair [(''B'', ''y''), (''a'', ''1''), (''ab'', ''x''), (''b'', ''2'')]) =
     ''B=y&a=1&ab=x&b=2''"
  by code_simp

lemma serialize4:
  "serialize (insert_all [(''b'', ''2''), (''ab'', ''x''), (''a'', ''1''), (''B'', ''y'')]) =
     ''B=y&a=1&ab=x&b=2''"
proof -
  have "within_limits (insert_all [(''b'', ''2''), (''ab'', ''x''), (''a'', ''1''), (''B'', ''y'')])"
    by (simp add: within_limits_def entries4 CURL_MAX_INPUT_LENGTH_def)
  from serialize_entries [OF this] show ?thesis
    by (simp only: entries4 joined4)
qed

text \<open>
  C10, amended. For a mapping whose keys and values are all shorter than
  \<open>CURL_MAX_INPUT_LENGTH\<close>, the output of \<open>serialize\<close> is the pairs of the
  mapping, exactly those the mapping holds, in strictly ascending lexicographic order
  of their keys. For mappings of any size, two that hold the same pairs are serialized
  to the same string, and a mapping built by inserting pairs with distinct keys is
  serialized to the same string whatever the order of the insertions. Inserted in the
  order \<open>b\<close>, \<open>ab\<close>, \<open>a\<close>, \<open>B\<close>, the keys come out as \<open>B\<close>, \<open>a\<close>, \<open>ab\<close>,
  \<open>b\<close>.
\<close>

theorem serialize_canonical:
  "(within_limits params \<longrightarrow>
      serialize params = joined (map encoded_pair (RBT.entries params)))
   \<and> map_of (RBT.entries params) = RBT.lookup params
   \<and> sorted_wrt (<) (map fst (RBT.entries params))
   \<and> (RBT.lookup p1 = RBT.lookup p2 \<longrightarrow> serialize p1 = serialize p2)
   \<and> (distinct (map fst kvs) \<and> distinct (map fst kvs') \<and> set kvs = set kvs' \<longrightarrow>
        serialize (insert_all kvs) = serialize (insert_all kvs'))
   \<and> serialize (insert_all [(''b'', ''2''), (''ab'', ''x''), (''a'', ''1''), (''B'', ''y'')]) =
        ''B=y&a=1&ab=x&b=2''"
proof -
  have a: "within_limits params \<longrightarrow>
      serialize params = joined (map encoded_pair (RBT.entries params))"
    by (simp add: serialize_entries)
  have b: "map_of (RBT.entries params) = RBT.lookup params"
    by simp
  have c: "sorted_wrt (<) (map fst (RBT.entries params))"
    by (simp add: strict_sorted_iff RBT.sorted_entries RBT.distinct_entries)
  have d: "RBT.lookup p1 = RBT.lookup p2 \<longrightarrow> serialize p1 = serialize p2"
    using serialize_cong [of p1 p2] by blast
  have e: "distinct (map fst kvs) \<and> distinct (map fst kvs') \<and> set kvs = set kvs' \<longrightarrow>
        serialize (insert_all kvs) = serialize (insert_all kvs')"
    using insert_all_order [of kvs kvs'] by blast
  show ?thesis
    by (intro conjI) (fact a b c d e serialize4)+
qed

text \<open>
  C10 as stated fails for a mapping with a value of 8000000 spaces under the key
  \<open>a\<close>: of its two pairs \<open>serialize\<close> returns the first key and \<open>=\<close> only.
\<close>

theorem serialize_drops_pairs_counterexample:
  "RBT.entries (insert_all [(''b'', ''2''), (''a'', replicate 8000000 (CHR '' ''))]) =
     [(''a'', replicate 8000000 (CHR '' '')), (''b'', ''2'')]
   \<and> serialize (insert_all [(''b'', ''2''), (''a'', replicate 8000000 (CHR '' ''))]) = ''a=''"
proof -
  have "serialize_loop [(''a'', replicate 8000000 (CHR '' '')), (''b'', ''2'')] True
      \<lparr>is_good = True, written = []\<rparr> = \<lparr>is_good = False, written = ''a=''\<rparr>"
    by (simp add: curl_easy_escape_samples [simplified] curl_easy_escape_too_long [simplified]
        stream_put_def stream_put_ptr_def c_str_def)
  then show ?thesis
    by (simp add: serialize_def entries2)
qed

theorem serialize_canonical_witness:
  "within_limits (insert_all [(''a'', ''1''), (''b'', ''2 3'')])
   \<and> serialize (insert_all [(''a'', ''1''), (''b'', ''2 3'')]) =
       joined (map encoded_pair (RBT.entries (insert_all [(''a'', ''1''), (''b'', ''2 3'')])))
   \<and> RBT.lookup (insert_all [(''a'', ''1''), (''b'', ''2 3'')]) =
       RBT.lookup (insert_all [(''b'', ''2 3''), (''a'', ''1'')])
   \<and> distinct (map fst [(''a'', ''1''), (''b'', ''2 3'')])
   \<and> distinct (map fst [(''b'', ''2 3''), (''a'', ''1'')])
   \<and> set [(''a'', ''1''), (''b'', ''2 3'')] = set [(''b'', ''2 3''), (''a'', ''1'')]
   \<and> serialize (insert_all [(''a'', ''1''), (''b'', ''2 3'')]) =
       serialize (insert_all [(''b'', ''2 3''), (''a'', ''1'')])"
proof -
  have e: "RBT.entries (insert_all [(''a'', ''1''), (''b'', ''2 3'')]) =
      [(''a'', ''1''), (''b'', ''2 3'')]"
    by code_simp
  have w: "within_limits (insert_all [(''a'', ''1''), (''b'', ''2 3'')])"
    by (simp add: within_limits_def e CURL_MAX_INPUT_LENGTH_def)
  have d: "distinct (map fst [(''a'', ''1''), (''b'', ''2 3'')])"
    "distinct (map fst [(''b'', ''2 3''), (''a'', ''1'')])"
    by simp_all
  have s: "set [(''a'', ''1''), (''b'', ''2 3'')] = set [(''b'', ''2 3''), (''a'', ''1'')]"
    by auto
  have l: "RBT.lookup (insert_all [(''a'', ''1''), (''b'', ''2 3'')]) =
      RBT.lookup (insert_all [(''b'', ''2 3''), (''a'', ''1'')])"
    by (auto simp: lookup_insert_all fun_eq_iff)
  note t = serialize_canonical [of "insert_all [(''a'', ''1''), (''b'', ''2 3'')]" _ _
      "[(''a'', ''1''), (''b'', ''2 3'')]" "[(''b'', ''2 3''), (''a'', ''1'')]"]
  from t w
  have c1: "serialize (insert_all [(''a'', ''1''), (''b'', ''2 3'')]) =
       joined (map encoded_pair (RBT.entries (insert_all [(''a'', ''1''), (''b'', ''2 3'')])))"
    by blast
  from t d s
  have c2: "serialize (insert_all [(''a'', ''1''), (''b'', ''2 3'')]) =
      serialize (insert_all [(''b'', ''2 3''), (''a'', ''1'')])"
    by blast
  show ?thesis
    by (intro conjI) (fact w c1 l d s c2)+
qed

section \<open>Compression round trip\<close>

lemma gzip_deflated:
  assumes "deflateInit2_code Z = Z_OK"
    and "length B < 2 ^ 32" and "12 + deflateBound Z (length B) < 2 ^ 32"
    and "length (deflated Z B) \<le> 12 + deflateBound Z (length B)"
  shows "gzip Z B = Inr (deflated Z B)"
  using assms by (simp add: gzip_def uInt_def deflate_finish_def write_at_def Let_def)

text \<open>
  The loop of \<open>gunzip\<close> on a stream that decodes to its end, with less than
  \<open>2 ^ 32\<close> bytes of output in all: if the output so far fills the buffer up to
  \<open>next_out\<close> and the rest of the buffer is the space announced, the loop returns the
  output so far followed by all that was pending.
\<close>

lemma gunzip_loop_end:
  assumes "final stream = Stream_end"
    and "next_out stream = total_out stream"
    and "avail_out stream = length dest - next_out stream"
    and "next_out stream < length dest"
    and "total_out stream + length (pending stream) < 2 ^ 32"
  shows "gunzip_loop stream dest = Inr (take (total_out stream) dest @ pending stream)"
  using assms
proof (induction stream dest rule: gunzip_loop.induct)
  case (1 stream dest)
  let ?k = "min (avail_out stream) (length (pending stream))"
  show ?case
  proof (cases "length (pending stream) \<le> avail_out stream")
    case True
    then have k: "?k = length (pending stream)"
      by simp
    show ?thesis
      using True "1.prems"
      by (subst gunzip_loop.simps)
        (simp add: inflate_def Let_def k write_at_def Z_OK_def Z_STREAM_END_def)
  next
    case False
    then have k: "?k = avail_out stream"
      by simp
    obtain rc stream1 dest1 where i: "inflate stream dest = (rc, stream1, dest1)"
      by (cases "inflate stream dest") auto
    from False "1.prems" k have rc: "rc = Z_OK"
      using i by (auto simp: inflate_def Let_def)
    from i k "1.prems" False
    have d1: "dest1 = take (total_out stream) dest @ take (avail_out stream) (pending stream)"
      by (auto simp: inflate_def Let_def write_at_def)
    from i k "1.prems" False
    have s1: "total_out stream1 = length dest"
      "pending stream1 = drop (avail_out stream) (pending stream)"
      "final stream1 = Stream_end"
      by (auto simp: inflate_def Let_def)
    have l1: "length dest1 = length dest"
      using d1 "1.prems" False by simp
    have small: "length dest < 2 ^ 32"
      using "1.prems" False by simp
    then have u: "uInt (length dest) = length dest"
      by (simp add: uInt_def)
    let ?dest2 = "dest1 @ replicate (length dest1 * 2 - length dest1) (CHR 0x00)"
    let ?stream2 = "stream1\<lparr>next_out := length dest1,
                              avail_out := uInt (length ?dest2 - length dest1)\<rparr>"
    have "gunzip_loop ?stream2 ?dest2 = Inr (take (total_out ?stream2) ?dest2 @ pending ?stream2)"
      using s1 l1 u "1.prems" False
      by (intro "1.IH" [OF i [symmetric] refl refl rc refl refl refl]) auto
    also have "\<dots> = Inr (take (total_out stream) dest @ pending stream)"
      using s1 l1 d1 "1.prems" False by simp
    finally show ?thesis
      by (subst gunzip_loop.simps) (simp add: i rc Let_def)
  qed
qed

lemma gunzip_inflated:
  assumes "inflateInit2_code Z = Z_OK" and "length z < 2 ^ 32"
    and "inflated Z z = (B, Stream_end)" and "length B < 2 ^ 32"
  shows "gunzip Z z = Inr B"
  using assms by (simp add: gunzip_def uInt_def gunzip_loop_end)

text \<open>
  C3, amended. Take a buffer \<open>B\<close> of less than \<open>2 ^ 32\<close> bytes for which the
  buffer \<open>gzip\<close> allocates, \<open>12 + deflateBound\<close> bytes, is smaller than \<open>2 ^ 32\<close>
  bytes too, and a zlib that keeps its contract on \<open>B\<close> (both initialisations
  succeed, the deflated stream is no longer than \<open>deflateBound\<close> says, and inflating
  the deflated stream decodes \<open>B\<close> up to the end of the stream). Then \<open>gzip\<close>
  returns a stream and \<open>gunzip\<close> of that stream returns \<open>B\<close>: neither throws, and
  the buffer that \<open>gunzip\<close> grows holds exactly \<open>B\<close> at the end.
\<close>

theorem gunzip_gzip:
  assumes "deflateInit2_code Z = Z_OK" and "inflateInit2_code Z = Z_OK"
    and "length B < 2 ^ 32" and "12 + deflateBound Z (length B) < 2 ^ 32"
    and "length (deflated Z B) \<le> deflateBound Z (length B)"
    and "inflated Z (deflated Z B) = (B, Stream_end)"
  shows "\<exists>z. gzip Z B = Inr z \<and> gunzip Z z = Inr B"
proof -
  from assms have "gzip Z B = Inr (deflated Z B)"
    by (simp add: gzip_deflated)
  moreover from assms have "gunzip Z (deflated Z B) = Inr B"
    by (intro gunzip_inflated) simp_all
  ultimately show ?thesis
    by simp
qed

text \<open>
  C3 as stated fails for a buffer of \<open>2 ^ 32\<close> bytes, on a zlib that would take it
  through the round trip: \<open>avail_in\<close> is 0, so \<open>gzip\<close> returns the stream of the
  empty input, which \<open>gunzip\<close> turns into the empty buffer.
\<close>

theorem gunzip_gzip_4GiB_counterexample:
  "inflated toy_zlib (deflated toy_zlib (replicate (2 ^ 32) (CHR 0x00))) =
     (replicate (2 ^ 32) (CHR 0x00), Stream_end)
   \<and> gzip toy_zlib (replicate (2 ^ 32) (CHR 0x00)) = Inr ''GZ''
   \<and> gunzip toy_zlib ''GZ'' = Inr []
   \<and> replicate (2 ^ 32) (CHR 0x00) \<noteq> []"
proof -
  have "gunzip toy_zlib ''GZ'' = Inr []"
    by (rule gunzip_inflated) (simp_all add: toy_zlib_def Z_OK_def)
  moreover have "gzip toy_zlib (replicate (2 ^ 32) (CHR 0x00)) = Inr ''GZ''"
    by (simp add: gzip_def uInt_def deflate_finish_def write_at_def toy_zlib_def Z_OK_def
        Z_STREAM_END_def Let_def)
  ultimately show ?thesis
    by (simp add: toy_zlib_def)
qed

theorem gunzip_gzip_witness:
  "deflateInit2_code toy_zlib = Z_OK \<and> inflateInit2_code toy_zlib = Z_OK
   \<and> length ''hello'' < (2 :: nat) ^ 32
   \<and> 12 + deflateBound toy_zlib (length ''hello'') < 2 ^ 32
   \<and> length (deflated toy_zlib ''hello'') \<le> deflateBound toy_zlib (length ''hello'')
   \<and> inflated toy_zlib (deflated toy_zlib ''hello'') = (''hello'', Stream_end)
   \<and> (\<exists>z. gzip toy_zlib ''hello'' = Inr z \<and> gunzip toy_zlib z = Inr ''hello'')"
  using gunzip_gzip [of toy_zlib "''hello''"]
  by (simp add: toy_zlib_def Z_OK_def)

section \<open>Cookies of a client\<close>

lemma split_lines_nonempty: "split_lines d \<noteq> []"
  by (induction d) (auto split: list.splits)

lemma split_lines_no_newline: "l \<in> set (split_lines d) \<Longrightarrow> CHR 0x0A \<notin> set l"
  by (induction d arbitrary: l) (auto split: list.splits if_splits)

lemma join_split_lines: "join_lines (split_lines d) = d"
proof (induction d)
  case Nil
  show ?case by simp
next
  case (Cons c cs)
  obtain l ls where s: "split_lines cs = l # ls"
    using split_lines_nonempty [of cs] by (cases "split_lines cs") auto
  with Cons show ?case
    by (cases ls) auto
qed

lemma getline_last:
  "CHR 0x0A \<notin> set l \<Longrightarrow> getline l = (l, \<lparr>unread_chars = [], eofbit = True\<rparr>)"
  by (induction l) auto

lemma getline_more:
  "CHR 0x0A \<notin> set l \<Longrightarrow>
     getline (l @ CHR 0x0A # rest) = (l, \<lparr>unread_chars = rest, eofbit = False\<rparr>)"
  by (induction l) auto

lemma setopt_cookielist_ok:
  "setopt_code L CURLOPT_COOKIELIST (Str s) = CURLE_OK \<Longrightarrow>
     setopt L h CURLOPT_COOKIELIST (Str s) = (Inr (), replay h [s])"
  by (simp add: setopt_def curl_easy_setopt_def replay_def)

lemma replay_replay: "replay (replay h xs) ys = replay h (xs @ ys)"
  by (simp add: replay_def)

lemma setcookie_loop_lines:
  assumes "\<forall>v. setopt_code L CURLOPT_COOKIELIST v = CURLE_OK"
    and "ls \<noteq> []" and "\<forall>l \<in> set ls. CHR 0x0A \<notin> set l"
  shows "setcookie_loop L h \<lparr>unread_chars = join_lines ls, eofbit = False\<rparr> =
           (Inr (), replay h (map c_str ls))"
  using assms(2,3)
proof (induction ls arbitrary: h)
  case Nil
  then show ?case by simp
next
  case (Cons l ls)
  show ?case
  proof (cases ls)
    case Nil
    with Cons.prems assms(1) show ?thesis
      by (simp add: setcookie_loop.simps [of L h] setcookie_loop.simps [of L "replay h [c_str l]"]
          getline_last setopt_cookielist_ok)
  next
    case (Cons l' ls')
    with Cons.prems Cons.IH [of "replay h [c_str l]"] assms(1) show ?thesis
      by (simp add: setcookie_loop.simps [of L h] getline_more setopt_cookielist_ok replay_replay)
  qed
qed

text \<open>
  C9, amended. When every \<open>CURLOPT_COOKIELIST\<close> call succeeds, \<open>setcookie\<close> gives
  the cookie engine the command \<open>ALL\<close> and then every line of the data, one call per
  line in order, as a C string. The lines are the pieces of the data between its
  newlines: none is left out, not the empty ones either.
\<close>

theorem setcookie_calls:
  assumes "\<forall>v. setopt_code L CURLOPT_COOKIELIST v = CURLE_OK"
  shows "setcookie L c data =
           (Inr (), c\<lparr>impl_handle := replay (impl_handle c) (''ALL'' # map c_str (split_lines data))\<rparr>)
         \<and> split_lines data \<noteq> []
         \<and> (\<forall>l \<in> set (split_lines data). CHR 0x0A \<notin> set l)
         \<and> join_lines (split_lines data) = data"
proof -
  have "setcookie_loop L (replay (impl_handle c) [''ALL'']) \<lparr>unread_chars = data, eofbit = False\<rparr> =
      (Inr (), replay (replay (impl_handle c) [''ALL'']) (map c_str (split_lines data)))"
    using setcookie_loop_lines [OF assms split_lines_nonempty, of data]
    by (simp add: split_lines_no_newline join_split_lines)
  then show ?thesis
    using assms
    by (simp add: setcookie_def setopt_cookielist_ok replay_replay split_lines_nonempty
        split_lines_no_newline join_split_lines)
qed

text \<open>
  C9 as stated fails: for the data \<open>a\<close>, two newlines, \<open>b\<close>, which has two
  non-empty lines, \<open>setcookie\<close> makes three calls after \<open>ALL\<close>, one of them
  with the empty line.
\<close>

theorem setcookie_empty_line_counterexample:
  "cookielist (handle_p (impl_handle (snd (setcookie (lib_const (no_answer 0)) new_client
      (''a'' @ [CHR 0x0A, CHR 0x0A] @ ''b''))))) = [''ALL'', ''a'', [], ''b'']"
  by code_simp

theorem setcookie_calls_witness:
  "(\<forall>v. setopt_code (lib_const (no_answer 0)) CURLOPT_COOKIELIST v = CURLE_OK)
   \<and> setcookie (lib_const (no_answer 0)) new_client (''a'' @ [CHR 0x0A] @ ''b'') =
       (Inr (), new_client\<lparr>impl_handle := replay new_handle [''ALL'', ''a'', ''b'']\<rparr>)"
proof -
  have s: "split_lines (''a'' @ [CHR 0x0A] @ ''b'') = [''a'', ''b'']"
    by simp
  have c: "map c_str [''a'', ''b''] = [''a'', ''b'']"
    by (simp add: c_str_def)
  have o: "\<forall>v. setopt_code (lib_const (no_answer 0)) CURLOPT_COOKIELIST v = CURLE_OK"
    by (simp add: lib_const_def)
  from setcookie_calls [OF o, of new_client "''a'' @ [CHR 0x0A] @ ''b''"] o show ?thesis
    unfolding s c by (simp add: new_client_def)
qed

section \<open>Handle state across requests\<close>

lemma reset_reset: "reset (reset h) = reset h"
  by (simp add: reset_def clear_headers_def curl_easy_reset_def Let_def)

lemma headers_setopt: "headers_p (snd (setopt L h opt v)) = headers_p h"
  by (simp add: setopt_def split: prod.splits)

lemma headers_setopts: "headers_p (snd (setopts L h ovs)) = headers_p h"
proof (induction ovs arbitrary: h)
  case Nil
  show ?case by simp
next
  case (Cons ov ovs)
  obtain opt v where ov: "ov = (opt, v)"
    by (cases ov)
  obtain r h1 where s: "setopt L h opt v = (r, h1)"
    by (cases "setopt L h opt v")
  with headers_setopt [of L h opt v] have h1: "headers_p h1 = headers_p h"
    by simp
  show ?case
    using Cons.IH [of h1] h1 by (cases r) (simp_all add: ov s)
qed

lemma cookielist_setopt:
  "opt \<noteq> CURLOPT_COOKIELIST \<Longrightarrow>
     cookielist (handle_p (snd (setopt L h opt v))) = cookielist (handle_p h)"
  by (simp add: setopt_def curl_easy_setopt_def Let_def)

lemma headers_perform: "headers_p (fst (snd (perform L h resp out))) = headers_p h"
proof -
  obtain r h1 where s: "setopt L h CURLOPT_HTTPHEADER (Slist (headers_p h)) = (r, h1)"
    by (cases "setopt L h CURLOPT_HTTPHEADER (Slist (headers_p h))")
  with headers_setopt [of L h CURLOPT_HTTPHEADER "Slist (headers_p h)"]
  have "headers_p h1 = headers_p h"
    by simp
  then show ?thesis
    by (cases r) (simp_all add: perform_def s Let_def split: prod.splits)
qed

lemma c_str_literals:
  "c_str ''Accept-encoding: gzip'' = ''Accept-encoding: gzip''"
  "c_str ''Expect:'' = ''Expect:''"
  "c_str ''Content-Encoding: gzip'' = ''Content-Encoding: gzip''"
  by (simp_all add: c_str_def)

lemma headers_prepare_basic:
  "headers_p (snd (prepare_basic L h url t ac)) =
     (if fst (prepare_basic L h url t ac) = Inr () \<and> ac then [''Accept-encoding: gzip''] else [])"
proof -
  let ?ovs = "[(CURLOPT_URL, Str (c_str url)), (CURLOPT_NOSIGNAL, Long 1),
     (CURLOPT_NOPROGRESS, Long 1), (CURLOPT_WRITEFUNCTION, Fn_streamfunc),
     (CURLOPT_WRITEDATA, Ptr_out), (CURLOPT_HEADERFUNCTION, Fn_headerfunc),
     (CURLOPT_HEADERDATA, Ptr_resp), (CURLOPT_COOKIEFILE, Str []), (CURLOPT_TIMEOUT, Long t)]"
  obtain r h1 where s: "setopts L (reset h) ?ovs = (r, h1)"
    by (cases "setopts L (reset h) ?ovs")
  with headers_setopts [of L "reset h" ?ovs] have "headers_p h1 = []"
    by (simp add: reset_def clear_headers_def Let_def)
  then show ?thesis
    using s by (cases r) (simp_all add: prepare_basic_def add_header_def c_str_literals)
qed

lemma headers_prepare_post:
  "headers_p (snd (prepare_post L h data n cmp)) =
     (if fst (prepare_post L h data n cmp) = Inr ()
      then headers_p h @ ''Expect:'' # (if cmp then [''Content-Encoding: gzip''] else [])
      else headers_p h)"
proof -
  let ?ovs = "[(CURLOPT_POST, Long 1), (CURLOPT_POSTFIELDS, Str data),
     (CURLOPT_POSTFIELDSIZE, Long (int n))]"
  obtain r h1 where s: "setopts L h ?ovs = (r, h1)"
    by (cases "setopts L h ?ovs")
  with headers_setopts [of L h ?ovs] have "headers_p h1 = headers_p h"
    by simp
  then show ?thesis
    using s by (cases r) (simp_all add: prepare_post_def add_header_def c_str_literals Let_def)
qed

lemma prepare_basic_reset:
  "prepare_basic L (reset h) url t ac = prepare_basic L h url t ac"
  by (simp add: prepare_basic_def reset_reset)

lemma get_reset: "get L Z (reset h) url t = get L Z h url t"
  by (simp add: get_def prepare_basic_reset)

lemma post_reset: "post L Z (reset h) url data t = post L Z h url data t"
  by (simp add: post_def prepare_basic_reset)

lemma download_reset: "download L fs (reset h) url path t = download L fs h url path t"
  by (simp add: download_def prepare_basic_reset)

lemma headers_get:
  "headers_p (snd (get L Z h url t)) = [] \<or>
   headers_p (snd (get L Z h url t)) = [''Accept-encoding: gzip'']"
proof -
  obtain r h1 where p: "prepare_basic L h url t True = (r, h1)"
    by (cases "prepare_basic L h url t True")
  with headers_prepare_basic [of L h url t True]
  have h1: "headers_p h1 = [] \<or> headers_p h1 = [''Accept-encoding: gzip'']"
    by (auto split: if_splits)
  obtain r2 h2 res ss where q: "perform L h1 new_result ostringstream = (r2, h2, res, ss)"
    by (cases "perform L h1 new_result ostringstream")
  with headers_perform [of L h1 new_result ostringstream] have "headers_p h2 = headers_p h1"
    by simp
  with h1 show ?thesis
    by (cases r; cases r2) (auto simp: get_def p q split: sum.splits)
qed


lemma headers_post:
  "headers_p (snd (post L Z h url data t)) \<in>
     {[], [''Accept-encoding: gzip''], [''Accept-encoding: gzip'', ''Expect:''],
      [''Accept-encoding: gzip'', ''Expect:'', ''Content-Encoding: gzip'']}"
proof -
  obtain r h1 where p: "prepare_basic L h url t True = (r, h1)"
    by (cases "prepare_basic L h url t True")
  show ?thesis
  proof (cases r)
    case (Inl e)
    with p headers_prepare_basic [of L h url t True] have "headers_p h1 = []"
      by simp
    with Inl show ?thesis
      by (simp add: post_def p)
  next
    case (Inr u)
    with p headers_prepare_basic [of L h url t True]
    have h1: "headers_p h1 = [''Accept-encoding: gzip'']"
      by simp
    show ?thesis
    proof (cases "if length data > 10240
                 then (case gzip Z data of Inl e \<Rightarrow> Inl e | Inr z \<Rightarrow> Inr (z, True))
                 else Inr (data, False)")
      case (Inl e)
      with h1 Inr show ?thesis
        by (simp add: post_def p)
    next
      case b: (Inr dc)
      obtain d cmp where dc: "dc = (d, cmp)"
        by (cases dc)
      obtain r2 h2 where q: "prepare_post L h1 d (length d) cmp = (r2, h2)"
        by (cases "prepare_post L h1 d (length d) cmp")
      with headers_prepare_post [of L h1 d "length d" cmp] h1
      have h2: "headers_p h2 \<in>
          {[''Accept-encoding: gzip''], [''Accept-encoding: gzip'', ''Expect:''],
           [''Accept-encoding: gzip'', ''Expect:'', ''Content-Encoding: gzip'']}"
        by (auto split: if_splits)
      obtain r3 h3 res ss where u: "perform L h2 new_result ostringstream = (r3, h3, res, ss)"
        by (cases "perform L h2 new_result ostringstream")
      with headers_perform [of L h2 new_result ostringstream] have "headers_p h3 = headers_p h2"
        by simp
      with h2 have "headers_p (snd (
          case prepare_post L h1 d (length d) cmp of
            (Inl e, curl2) \<Rightarrow> (Inl e, curl2)
          | (Inr _, curl2) \<Rightarrow>
              (case perform L curl2 new_result ostringstream of
                 (Inl e, curl3, result1, ss1) \<Rightarrow> (Inl e, curl3)
               | (Inr _, curl3, result1, ss1) \<Rightarrow>
                   (case getinfo_response_code L curl3 of
                      Inl e \<Rightarrow> (Inl e, curl3)
                    | Inr code \<Rightarrow>
                        (process_response Z (result1\<lparr>status := code, body := written ss1\<rparr>),
                         curl3))))) \<in>
          {[], [''Accept-encoding: gzip''], [''Accept-encoding: gzip'', ''Expect:''],
           [''Accept-encoding: gzip'', ''Expect:'', ''Content-Encoding: gzip'']}"
        by (cases r2; cases r3) (auto simp: q u split: sum.splits)
      then show ?thesis
        using Inr b by (simp add: post_def p dc)
    qed
  qed
qed

lemma headers_download: "headers_p (fst (snd (download L fs h url path t))) = []"
proof -
  obtain fs1 out where f: "ofstream_open fs (c_str path) = (fs1, out)"
    by (cases "ofstream_open fs (c_str path)")
  obtain r h1 where p: "prepare_basic L h url t False = (r, h1)"
    by (cases "prepare_basic L h url t False")
  with headers_prepare_basic [of L h url t False] have h1: "headers_p h1 = []"
    by simp
  obtain r2 h2 res ss where q: "perform L h1 new_result out = (r2, h2, res, ss)"
    by (cases "perform L h1 new_result out")
  with headers_perform [of L h1 new_result out] h1 have "headers_p h2 = []"
    by simp
  with h1 show ?thesis
    by (cases r; cases r2) (auto simp: download_def f p q split: sum.splits)
qed

lemma cookielist_setopts:
  "CURLOPT_COOKIELIST \<notin> fst ` set ovs \<Longrightarrow>
     cookielist (handle_p (snd (setopts L h ovs))) = cookielist (handle_p h)"
proof (induction ovs arbitrary: h)
  case Nil
  show ?case by simp
next
  case (Cons ov ovs)
  obtain opt v where ov: "ov = (opt, v)"
    by (cases ov)
  obtain r h1 where s: "setopt L h opt v = (r, h1)"
    by (cases "setopt L h opt v")
  from Cons.prems ov have "opt \<noteq> CURLOPT_COOKIELIST"
    by auto
  from cookielist_setopt [OF this, of L h v] s
  have h1: "cookielist (handle_p h1) = cookielist (handle_p h)"
    by simp
  show ?case
    using Cons.IH [of h1] Cons.prems h1 by (cases r) (simp_all add: ov s)
qed

lemma cookielist_prepare_basic:
  "cookielist (handle_p (snd (prepare_basic L h url t ac))) = cookielist (handle_p h)"
proof -
  obtain r h1 where s: "setopts L (reset h) (basic_options url t) = (r, h1)"
    by (cases "setopts L (reset h) (basic_options url t)")
  have "cookielist (handle_p (snd (setopts L (reset h) (basic_options url t)))) =
      cookielist (handle_p (reset h))"
    by (rule cookielist_setopts) (simp add: basic_options_def)
  with s have "cookielist (handle_p h1) = cookielist (handle_p h)"
    by (simp add: reset_def clear_headers_def curl_easy_reset_def Let_def)
  then show ?thesis
    using s by (cases r) (simp_all add: prepare_basic_def add_header_def basic_options_def)
qed

text \<open>
  C6. \<open>reset\<close> leaves a handle with no pending header, no option set and no
  information on a transfer; the cookies are all it keeps. Every request starts with
  it: \<open>prepare_basic\<close>, \<open>get\<close>, \<open>post\<close> and \<open>download\<close> do on any handle
  what they do on the handle reset, so their outcome depends on the handle's past
  through its cookies only, and \<open>prepare_basic\<close> hands the cookies on unchanged. The
  headers pending on the handle after a \<open>get\<close> are the one a \<open>get\<close> adds, or none
  if it failed before; those after a \<open>post\<close> are the ones a \<open>post\<close> adds, as far as
  it got; a \<open>download\<close> has none. None is there twice, and a \<open>get\<close> on the handle
  a \<open>post\<close> left has neither \<open>Expect:\<close> nor \<open>Content-Encoding: gzip\<close> pending.
\<close>

theorem reset_before_request:
  "reset h = \<lparr>handle_p = \<lparr>options = [], cookielist = cookielist (handle_p h),
                            info_response_code = 0\<rparr>, headers_p = []\<rparr>
   \<and> prepare_basic L h url t ac = prepare_basic L (reset h) url t ac
   \<and> cookielist (handle_p (snd (prepare_basic L h url t ac))) = cookielist (handle_p h)
   \<and> get L Z h url t = get L Z (reset h) url t
   \<and> post L Z h url data t = post L Z (reset h) url data t
   \<and> download L fs h url path t = download L fs (reset h) url path t
   \<and> headers_p (snd (get L Z h url t)) \<in> {[], [''Accept-encoding: gzip'']}
   \<and> headers_p (snd (post L Z h url data t)) \<in>
        {[], [''Accept-encoding: gzip''], [''Accept-encoding: gzip'', ''Expect:''],
         [''Accept-encoding: gzip'', ''Expect:'', ''Content-Encoding: gzip'']}
   \<and> headers_p (fst (snd (download L fs h url path t))) = []
   \<and> ''Expect:'' \<notin> set (headers_p (snd (get L Z (snd (post L Z h url data t)) url' t')))
   \<and> ''Content-Encoding: gzip'' \<notin>
        set (headers_p (snd (get L Z (snd (post L Z h url data t)) url' t')))"
proof -
  have c1: "reset h = \<lparr>handle_p = \<lparr>options = [], cookielist = cookielist (handle_p h),
                            info_response_code = 0\<rparr>, headers_p = []\<rparr>"
    by (simp add: reset_def clear_headers_def curl_easy_reset_def Let_def)
  have c2: "prepare_basic L h url t ac = prepare_basic L (reset h) url t ac"
    by (simp only: prepare_basic_reset)
  have c3: "cookielist (handle_p (snd (prepare_basic L h url t ac))) = cookielist (handle_p h)"
    by (rule cookielist_prepare_basic)
  have c4: "get L Z h url t = get L Z (reset h) url t"
    by (simp only: get_reset)
  have c5: "post L Z h url data t = post L Z (reset h) url data t"
    by (simp only: post_reset)
  have c6: "download L fs h url path t = download L fs (reset h) url path t"
    by (simp only: download_reset)
  have g: "headers_p (snd (get L Z h' u' t'')) \<in> {[], [''Accept-encoding: gzip'']}" for h' u' t''
    using headers_get [of L Z h' u' t''] by auto
  note c7 = g [of h url t]
  note c8 = headers_post [of L Z h url data t]
  note c9 = headers_download [of L fs h url path t]
  from g [of "snd (post L Z h url data t)" url' t']
  have c10: "''Expect:'' \<notin> set (headers_p (snd (get L Z (snd (post L Z h url data t)) url' t')))"
    and c11: "''Content-Encoding: gzip'' \<notin>
        set (headers_p (snd (get L Z (snd (post L Z h url data t)) url' t')))"
    by auto
  show ?thesis
    by (intro conjI) (fact c1 c2 c3 c4 c5 c6 c7 c8 c9 c10 c11)+
qed

section \<open>Compression of POST bodies\<close>

lemma configured_append: "configured (configured h a) b = configured h (a @ b)"
  by (simp add: configured_def)

lemma setopt_ok:
  "setopt_code L opt v = CURLE_OK \<Longrightarrow> opt \<noteq> CURLOPT_COOKIELIST \<Longrightarrow>
     setopt L h opt v = (Inr (), configured h [(opt, v)])"
  by (simp add: setopt_def curl_easy_setopt_def configured_def)

lemma setopts_ok:
  assumes "\<forall>opt v. setopt_code L opt v = CURLE_OK"
  shows "CURLOPT_COOKIELIST \<notin> fst ` set ovs \<Longrightarrow> setopts L h ovs = (Inr (), configured h ovs)"
proof (induction ovs arbitrary: h)
  case Nil
  show ?case by (simp add: configured_def)
next
  case (Cons ov ovs)
  obtain opt v where ov: "ov = (opt, v)"
    by (cases ov)
  with Cons.prems have "opt \<noteq> CURLOPT_COOKIELIST"
    by auto
  with assms have "setopt L h opt v = (Inr (), configured h [(opt, v)])"
    by (simp add: setopt_ok)
  with Cons.IH [of "configured h [(opt, v)]"] Cons.prems show ?case
    by (simp add: ov configured_append)
qed

lemma prepare_basic_ok:
  assumes "\<forall>opt v. setopt_code L opt v = CURLE_OK"
  shows "prepare_basic L h url t ac =
           (Inr (), (configured (reset h) (basic_options url t))
                      \<lparr>headers_p := (if ac then [''Accept-encoding: gzip''] else [])\<rparr>)"
proof -
  have "setopts L (reset h) (basic_options url t) = (Inr (), configured (reset h) (basic_options url t))"
    by (rule setopts_ok [OF assms]) (simp add: basic_options_def)
  then show ?thesis
    by (simp add: prepare_basic_def basic_options_def add_header_def c_str_literals configured_def
        reset_def clear_headers_def Let_def)
qed

lemma prepare_post_ok:
  assumes "\<forall>opt v. setopt_code L opt v = CURLE_OK"
  shows "prepare_post L h d n cmp =
           (Inr (), (configured h [(CURLOPT_POST, Long 1), (CURLOPT_POSTFIELDS, Str d),
                                   (CURLOPT_POSTFIELDSIZE, Long (int n))])
                      \<lparr>headers_p := headers_p h @ ''Expect:'' #
                          (if cmp then [''Content-Encoding: gzip''] else [])\<rparr>)"
proof -
  let ?ovs = "[(CURLOPT_POST, Long 1), (CURLOPT_POSTFIELDS, Str d),
     (CURLOPT_POSTFIELDSIZE, Long (int n))]"
  have "setopts L h ?ovs = (Inr (), configured h ?ovs)"
    by (rule setopts_ok [OF assms]) simp
  then show ?thesis
    by (simp add: prepare_post_def add_header_def c_str_literals configured_def Let_def)
qed

lemma options_perform:
  assumes "setopt_code L CURLOPT_HTTPHEADER (Slist (headers_p h)) = CURLE_OK"
  shows "options (handle_p (fst (snd (perform L h resp out)))) =
           options (handle_p h) @ [(CURLOPT_HTTPHEADER, Slist (headers_p h))]"
  using assms
  by (simp add: perform_def setopt_ok configured_def curl_easy_perform_def Let_def)

lemma post_handle:
  assumes "prepare_basic L h url t True = (Inr (), h1)"
    and "(if length data > 10240
          then (case gzip Z data of Inl e \<Rightarrow> Inl e | Inr z \<Rightarrow> Inr (z, True))
          else Inr (data, False)) = Inr (d, cmp)"
    and "prepare_post L h1 d (length d) cmp = (Inr (), h2)"
  shows "snd (post L Z h url data t) = fst (snd (perform L h2 new_result ostringstream))"
proof -
  obtain r3 h3 res ss where u: "perform L h2 new_result ostringstream = (r3, h3, res, ss)"
    by (cases "perform L h2 new_result ostringstream")
  show ?thesis
    using assms(2)
    by (cases r3) (simp_all add: post_def assms(1,3) u split: sum.splits)
qed

lemma post_options:
  assumes ok: "\<forall>opt v. setopt_code L opt v = CURLE_OK"
    and body: "(if length data > 10240
          then (case gzip Z data of Inl e \<Rightarrow> Inl e | Inr z \<Rightarrow> Inr (z, True))
          else Inr (data, False)) = Inr (d, cmp)"
  shows "options (handle_p (snd (post L Z h url data t))) =
           basic_options url t @
           [(CURLOPT_POST, Long 1), (CURLOPT_POSTFIELDS, Str d),
            (CURLOPT_POSTFIELDSIZE, Long (int (length d))),
            (CURLOPT_HTTPHEADER, Slist (''Accept-encoding: gzip'' # ''Expect:'' #
               (if cmp then [''Content-Encoding: gzip''] else [])))]"
proof -
  let ?h1 = "(configured (reset h) (basic_options url t))\<lparr>headers_p := [''Accept-encoding: gzip'']\<rparr>"
  let ?h2 = "(configured ?h1 [(CURLOPT_POST, Long 1), (CURLOPT_POSTFIELDS, Str d),
                                   (CURLOPT_POSTFIELDSIZE, Long (int (length d)))])
                      \<lparr>headers_p := headers_p ?h1 @ ''Expect:'' #
                          (if cmp then [''Content-Encoding: gzip''] else [])\<rparr>"
  have p1: "prepare_basic L h url t True = (Inr (), ?h1)"
    using prepare_basic_ok [OF ok, of h url t True] by simp
  have p2: "prepare_post L ?h1 d (length d) cmp = (Inr (), ?h2)"
    by (rule prepare_post_ok [OF ok])
  have "snd (post L Z h url data t) = fst (snd (perform L ?h2 new_result ostringstream))"
    by (rule post_handle [OF p1 body p2])
  moreover have "options (handle_p (fst (snd (perform L ?h2 new_result ostringstream)))) =
      options (handle_p ?h2) @ [(CURLOPT_HTTPHEADER, Slist (headers_p ?h2))]"
    by (rule options_perform) (simp add: ok)
  ultimately show ?thesis
    by (simp add: configured_def reset_def clear_headers_def curl_easy_reset_def Let_def)
qed

text \<open>
  C2. When every \<open>curl_easy_setopt\<close> succeeds, the handle on which \<open>post\<close> runs
  the transfer is configured as follows. For data of more than 10240 bytes that
  \<open>gzip\<close> compresses to \<open>z\<close>, the body (\<open>CURLOPT_POSTFIELDS\<close> with its size) is
  \<open>z\<close> and the header list is \<open>Accept-encoding: gzip\<close>, \<open>Expect:\<close>,
  \<open>Content-Encoding: gzip\<close>; if \<open>gzip\<close> throws, so does \<open>post\<close>. For data of at
  most 10240 bytes, so also of exactly 10240, the body is the data as given and the
  header list is \<open>Accept-encoding: gzip\<close>, \<open>Expect:\<close>, without
  \<open>Content-Encoding\<close>.
\<close>

theorem post_compression_threshold:
  assumes "\<forall>opt v. setopt_code L opt v = CURLE_OK"
  shows "(length data > 10240 \<and> gzip Z data = Inr z \<longrightarrow>
            option_values (handle_p (snd (post L Z h url data t))) CURLOPT_POSTFIELDS = [Str z]
          \<and> option_values (handle_p (snd (post L Z h url data t))) CURLOPT_POSTFIELDSIZE =
              [Long (int (length z))]
          \<and> option_values (handle_p (snd (post L Z h url data t))) CURLOPT_HTTPHEADER =
              [Slist [''Accept-encoding: gzip'', ''Expect:'', ''Content-Encoding: gzip'']])
       \<and> (length data > 10240 \<and> gzip Z data = Inl e \<longrightarrow> fst (post L Z h url data t) = Inl e)
       \<and> (length data \<le> 10240 \<longrightarrow>
            option_values (handle_p (snd (post L Z h url data t))) CURLOPT_POSTFIELDS = [Str data]
          \<and> option_values (handle_p (snd (post L Z h url data t))) CURLOPT_POSTFIELDSIZE =
              [Long (int (length data))]
          \<and> option_values (handle_p (snd (post L Z h url data t))) CURLOPT_HTTPHEADER =
              [Slist [''Accept-encoding: gzip'', ''Expect:'']])"
proof (intro conjI impI)
  assume a: "length data > 10240 \<and> gzip Z data = Inr z"
  then have "(if length data > 10240
          then (case gzip Z data of Inl e \<Rightarrow> Inl e | Inr z \<Rightarrow> Inr (z, True))
          else Inr (data, False)) = Inr (z, True)"
    by simp
  note o = post_options [OF assms this, of h url t]
  show "option_values (handle_p (snd (post L Z h url data t))) CURLOPT_POSTFIELDS = [Str z]"
    "option_values (handle_p (snd (post L Z h url data t))) CURLOPT_POSTFIELDSIZE =
              [Long (int (length z))]"
    "option_values (handle_p (snd (post L Z h url data t))) CURLOPT_HTTPHEADER =
              [Slist [''Accept-encoding: gzip'', ''Expect:'', ''Content-Encoding: gzip'']]"
    by (simp_all add: option_values_def o basic_options_def)
next
  assume a: "length data > 10240 \<and> gzip Z data = Inl e"
  then show "fst (post L Z h url data t) = Inl e"
    by (simp add: post_def prepare_basic_ok [OF assms])
next
  assume a: "length data \<le> 10240"
  then have "(if length data > 10240
          then (case gzip Z data of Inl e \<Rightarrow> Inl e | Inr z \<Rightarrow> Inr (z, True))
          else Inr (data, False)) = Inr (data, False)"
    by simp
  note o = post_options [OF assms this, of h url t]
  show "option_values (handle_p (snd (post L Z h url data t))) CURLOPT_POSTFIELDS = [Str data]"
    "option_values (handle_p (snd (post L Z h url data t))) CURLOPT_POSTFIELDSIZE =
              [Long (int (length data))]"
    "option_values (handle_p (snd (post L Z h url data t))) CURLOPT_HTTPHEADER =
              [Slist [''Accept-encoding: gzip'', ''Expect:'']]"
    by (simp_all add: option_values_def o basic_options_def)
qed


theorem post_compression_threshold_witness:
  "(\<forall>opt v. setopt_code (lib_const (no_answer 0)) opt v = CURLE_OK)
   \<and> length (replicate 10241 (CHR ''a'')) > 10240
   \<and> gzip toy_zlib (replicate 10241 (CHR ''a'')) = Inr (''GZ'' @ replicate 10241 (CHR ''a''))
   \<and> option_values (handle_p (snd (post (lib_const (no_answer 0)) toy_zlib new_handle ''http://h/''
          (replicate 10241 (CHR ''a'')) 30))) CURLOPT_HTTPHEADER =
        [Slist [''Accept-encoding: gzip'', ''Expect:'', ''Content-Encoding: gzip'']]
   \<and> gzip (toy_zlib\<lparr>deflateInit2_code := - 4\<rparr>) (replicate 10241 (CHR ''a'')) =
        Inl (runtime_error ''error initializing deflate'')
   \<and> fst (post (lib_const (no_answer 0)) (toy_zlib\<lparr>deflateInit2_code := - 4\<rparr>) new_handle
          ''http://h/'' (replicate 10241 (CHR ''a'')) 30) =
        Inl (runtime_error ''error initializing deflate'')
   \<and> length (replicate 10240 (CHR ''a'')) \<le> 10240
   \<and> option_values (handle_p (snd (post (lib_const (no_answer 0)) toy_zlib new_handle ''http://h/''
          (replicate 10240 (CHR ''a'')) 30))) CURLOPT_POSTFIELDS = [Str (replicate 10240 (CHR ''a''))]
   \<and> option_values (handle_p (snd (post (lib_const (no_answer 0)) toy_zlib new_handle ''http://h/''
          (replicate 10240 (CHR ''a'')) 30))) CURLOPT_HTTPHEADER =
        [Slist [''Accept-encoding: gzip'', ''Expect:'']]"
proof -
  have ok: "\<forall>opt v. setopt_code (lib_const (no_answer 0)) opt v = CURLE_OK"
    by (simp add: lib_const_def)
  have big: "length (replicate 10241 (CHR ''a'')) > 10240"
    and small: "length (replicate 10240 (CHR ''a'')) \<le> 10240"
    by simp_all
  have z: "gzip toy_zlib (replicate 10241 (CHR ''a'')) = Inr (''GZ'' @ replicate 10241 (CHR ''a''))"
    using gzip_deflated [of toy_zlib "replicate 10241 (CHR ''a'')"]
    by (simp add: toy_zlib_def Z_OK_def)
  have f: "gzip (toy_zlib\<lparr>deflateInit2_code := - 4\<rparr>) (replicate 10241 (CHR ''a'')) =
        Inl (runtime_error ''error initializing deflate'')"
    by (simp add: gzip_def Z_OK_def)
  note t1 = post_compression_threshold [OF ok, of "replicate 10241 (CHR ''a'')" toy_zlib
      "''GZ'' @ replicate 10241 (CHR ''a'')" new_handle "''http://h/''" 30]
  note t2 = post_compression_threshold [OF ok, of "replicate 10241 (CHR ''a'')"
      "toy_zlib\<lparr>deflateInit2_code := - 4\<rparr>" _ new_handle "''http://h/''" 30
      "runtime_error ''error initializing deflate''"]
  note t3 = post_compression_threshold [OF ok, of "replicate 10240 (CHR ''a'')" toy_zlib
      _ new_handle "''http://h/''" 30]
  from t1 big z
  have c1: "option_values (handle_p (snd (post (lib_const (no_answer 0)) toy_zlib new_handle ''http://h/''
          (replicate 10241 (CHR ''a'')) 30))) CURLOPT_HTTPHEADER =
        [Slist [''Accept-encoding: gzip'', ''Expect:'', ''Content-Encoding: gzip'']]"
    by blast
  from t2 big f
  have c2: "fst (post (lib_const (no_answer 0)) (toy_zlib\<lparr>deflateInit2_code := - 4\<rparr>) new_handle
          ''http://h/'' (replicate 10241 (CHR ''a'')) 30) =
        Inl (runtime_error ''error initializing deflate'')"
    by blast
  from t3 small
  have c3: "option_values (handle_p (snd (post (lib_const (no_answer 0)) toy_zlib new_handle ''http://h/''
          (replicate 10240 (CHR ''a'')) 30))) CURLOPT_POSTFIELDS = [Str (replicate 10240 (CHR ''a''))]"
    and c4: "option_values (handle_p (snd (post (lib_const (no_answer 0)) toy_zlib new_handle ''http://h/''
          (replicate 10240 (CHR ''a'')) 30))) CURLOPT_HTTPHEADER =
        [Slist [''Accept-encoding: gzip'', ''Expect:'']]"
    by blast+
  show ?thesis
    by (intro conjI) (fact ok big z c1 f c2 small c3 c4)+
qed

section \<open>Decompression of responses\<close>

lemma get_completed:
  assumes "prepare_basic L h url t True = (Inr (), h1)"
    and "perform L h1 new_result ostringstream = (Inr (), h2, r1, ss1)"
    and "getinfo_response_code L h2 = Inr code"
  shows "get L Z h url t = (process_response Z (r1\<lparr>status := code, body := written ss1\<rparr>), h2)"
  using assms by (simp add: get_def)

lemma post_completed:
  assumes "prepare_basic L h url t True = (Inr (), h1)"
    and "(if length data > 10240
          then (case gzip Z data of Inl e \<Rightarrow> Inl e | Inr z \<Rightarrow> Inr (z, True))
          else Inr (data, False)) = Inr (d, cmp)"
    and "prepare_post L h1 d (length d) cmp = (Inr (), h2)"
    and "perform L h2 new_result ostringstream = (Inr (), h3, r1, ss1)"
    and "getinfo_response_code L h3 = Inr code"
  shows "post L Z h url data t =
           (process_response Z (r1\<lparr>status := code, body := written ss1\<rparr>), h3)"
  using assms(2) by (simp add: post_def assms(1,3,4,5) split: sum.splits)

text \<open>
  C5. \<open>process_response\<close> replaces the body by what \<open>gunzip\<close> makes of it (or
  throws what \<open>gunzip\<close> throws) if the headers hold \<open>content-encoding\<close> with a
  value that equals \<open>gzip\<close> up to the case of its letters; with no such header, or
  with any other value, it returns the response as it is. A \<open>get\<close> and a \<open>post\<close>
  that complete (the request was prepared, performed and its status read) return what
  \<open>process_response\<close> makes of the response received.
\<close>

theorem process_response_gzip_only:
  "(headers r ''content-encoding'' = Some enc \<and> tolower enc = tolower ''gzip'' \<longrightarrow>
      process_response Z r =
        (case gunzip Z (body r) of Inl e \<Rightarrow> Inl e | Inr b \<Rightarrow> Inr (r\<lparr>body := b\<rparr>)))
   \<and> (headers r ''content-encoding'' = None \<longrightarrow> process_response Z r = Inr r)
   \<and> (headers r ''content-encoding'' = Some enc \<and> tolower enc \<noteq> tolower ''gzip'' \<longrightarrow>
        process_response Z r = Inr r)
   \<and> (prepare_basic L h url t True = (Inr (), h1)
        \<and> perform L h1 new_result ostringstream = (Inr (), h2, r1, ss1)
        \<and> getinfo_response_code L h2 = Inr code \<longrightarrow>
        fst (get L Z h url t) = process_response Z (r1\<lparr>status := code, body := written ss1\<rparr>))
   \<and> (prepare_basic L h url t True = (Inr (), h1)
        \<and> (if length data > 10240
            then (case gzip Z data of Inl e \<Rightarrow> Inl e | Inr z \<Rightarrow> Inr (z, True))
            else Inr (data, False)) = Inr (d, cmp)
        \<and> prepare_post L h1 d (length d) cmp = (Inr (), h2')
        \<and> perform L h2' new_result ostringstream = (Inr (), h3, r1', ss1')
        \<and> getinfo_response_code L h3 = Inr code' \<longrightarrow>
        fst (post L Z h url data t) =
          process_response Z (r1'\<lparr>status := code', body := written ss1'\<rparr>))"
proof -
  have l: "tolower ''gzip'' = ''gzip''"
    by code_simp
  show ?thesis
    using get_completed [of L h url t h1 h2 r1 ss1 code Z]
      post_completed [of L h url t h1 data Z d cmp h2' h3 r1' ss1' code']
    by (auto simp: process_response_def l)
qed

section \<open>Truncation of the download file\<close>

lemma perform_unreachable:
  assumes "unreachable L"
  shows "\<exists>e h1. perform L h resp out = (Inl e, h1, resp, out)"
proof -
  obtain r h1 where s: "setopt L h CURLOPT_HTTPHEADER (Slist (headers_p h)) = (r, h1)"
    by (cases "setopt L h CURLOPT_HTTPHEADER (Slist (headers_p h))")
  show ?thesis
  proof (cases r)
    case (Inl e)
    with s show ?thesis
      by (simp add: perform_def)
  next
    case (Inr u)
    from assms have "header_lines (run_transfer L (handle_p h1)) = []"
      "body_chunks (run_transfer L (handle_p h1)) = []"
      "result_code (run_transfer L (handle_p h1)) = CURLE_COULDNT_RESOLVE_HOST
        \<or> result_code (run_transfer L (handle_p h1)) = CURLE_COULDNT_CONNECT"
      by (simp_all add: unreachable_def)
    with s Inr show ?thesis
      by (auto simp: perform_def curl_easy_perform_def Let_def CURLE_OK_def
          CURLE_OPERATION_TIMEDOUT_def CURLE_COULDNT_RESOLVE_HOST_def CURLE_COULDNT_CONNECT_def)
  qed
qed

lemma download_file_exists:
  assumes "can_open fs (c_str localpath)"
  shows "files (snd (snd (download L fs h url localpath t))) (c_str localpath) \<noteq> None"
proof -
  let ?fs1 = "fs\<lparr>files := (files fs)(c_str localpath \<mapsto> [])\<rparr>"
  let ?out = "\<lparr>is_good = True, written = []\<rparr>"
  have o: "ofstream_open fs (c_str localpath) = (?fs1, ?out)"
    using assms by (simp add: ofstream_open_def)
  have c: "files (ofstream_close ?fs1 (c_str localpath) out1) (c_str localpath) \<noteq> None" for out1
    by (simp add: ofstream_close_def)
  obtain r h1 where p: "prepare_basic L h url t False = (r, h1)"
    by (cases "prepare_basic L h url t False")
  obtain r2 h2 res out1 where q: "perform L h1 new_result ?out = (r2, h2, res, out1)"
    by (cases "perform L h1 new_result ?out")
  show ?thesis
    using c [of ?out] c [of out1]
    by (cases r; cases r2) (auto simp: download_def o p q split: sum.splits)
qed

lemma download_prepare_fails:
  assumes "can_open fs (c_str localpath)" and "fst (prepare_basic L h url t False) = Inl e"
  shows "fst (download L fs h url localpath t) = Inl e"
    and "files (snd (snd (download L fs h url localpath t))) (c_str localpath) = Some []"
proof -
  obtain h1 where p: "prepare_basic L h url t False = (Inl e, h1)"
    using assms(2) by (cases "prepare_basic L h url t False") auto
  show "fst (download L fs h url localpath t) = Inl e"
    and "files (snd (snd (download L fs h url localpath t))) (c_str localpath) = Some []"
    using assms(1) by (simp_all add: download_def ofstream_open_def ofstream_close_def p)
qed

lemma download_unreachable:
  assumes "can_open fs (c_str localpath)" and "unreachable L"
  shows "\<exists>e. fst (download L fs h url localpath t) = Inl e"
    and "files (snd (snd (download L fs h url localpath t))) (c_str localpath) = Some []"
proof -
  let ?fs1 = "fs\<lparr>files := (files fs)(c_str localpath \<mapsto> [])\<rparr>"
  let ?out = "\<lparr>is_good = True, written = []\<rparr>"
  have o: "ofstream_open fs (c_str localpath) = (?fs1, ?out)"
    using assms(1) by (simp add: ofstream_open_def)
  obtain r h1 where p: "prepare_basic L h url t False = (r, h1)"
    by (cases "prepare_basic L h url t False")
  obtain e h2 where q: "perform L h1 new_result ?out = (Inl e, h2, new_result, ?out)"
    using perform_unreachable [OF assms(2), of h1 new_result ?out] by blast
  show "\<exists>e. fst (download L fs h url localpath t) = Inl e"
    and "files (snd (snd (download L fs h url localpath t))) (c_str localpath) = Some []"
    by (cases r; simp add: download_def o p q ofstream_close_def)+
qed

text \<open>
  C7, amended. If the local path can be opened for writing, the file exists after
  \<open>download\<close> whatever the outcome; it is there and empty when the request could
  not even be prepared, so the truncation does not wait for the request; and against a
  host that cannot be reached \<open>download\<close> throws and leaves the file there and
  empty.
\<close>

theorem download_truncates:
  "(can_open fs (c_str localpath) \<longrightarrow>
      files (snd (snd (download L fs h url localpath t))) (c_str localpath) \<noteq> None)
   \<and> (can_open fs (c_str localpath) \<and> fst (prepare_basic L h url t False) = Inl e \<longrightarrow>
        fst (download L fs h url localpath t) = Inl e
      \<and> files (snd (snd (download L fs h url localpath t))) (c_str localpath) = Some [])
   \<and> (can_open fs (c_str localpath) \<and> unreachable L \<longrightarrow>
        (\<exists>e'. fst (download L fs h url localpath t) = Inl e')
      \<and> files (snd (snd (download L fs h url localpath t))) (c_str localpath) = Some [])"
  using download_file_exists [of fs localpath L h url t]
    download_prepare_fails [of fs localpath L h url t e]
    download_unreachable [of fs localpath L h url t]
  by blast

lemma unreachable_sample: "unreachable (lib_const (no_answer 7))"
  by (simp add: unreachable_def lib_const_def no_answer_def CURLE_COULDNT_CONNECT_def)

text \<open>
  C7 as stated fails where the path cannot be opened: against a host that cannot be
  reached \<open>download\<close> throws \<open>connect_error\<close>, and no file was created.
\<close>

theorem download_unwritable_counterexample:
  "unreachable (lib_const (no_answer 7))
   \<and> fst (download (lib_const (no_answer 7)) closed_filesystem new_handle
        ''http://unreachable.invalid/'' ''/no/such/dir/file'' 30) = Inl connect_error
   \<and> files (snd (snd (download (lib_const (no_answer 7)) closed_filesystem new_handle
        ''http://unreachable.invalid/'' ''/no/such/dir/file'' 30))) ''/no/such/dir/file'' = None"
proof -
  have "fst (download (lib_const (no_answer 7)) closed_filesystem new_handle
        ''http://unreachable.invalid/'' ''/no/such/dir/file'' 30) = Inl connect_error"
    and "snd (snd (download (lib_const (no_answer 7)) closed_filesystem new_handle
        ''http://unreachable.invalid/'' ''/no/such/dir/file'' 30)) = closed_filesystem"
    by (simp_all add: download_def closed_filesystem_def ofstream_open_def ofstream_close_def
        prepare_basic_def setopt_def curl_easy_setopt_def lib_const_def no_answer_def
        perform_def curl_easy_perform_def add_header_def c_str_def Let_def CURLE_OK_def
        CURLE_OPERATION_TIMEDOUT_def CURLE_COULDNT_RESOLVE_HOST_def CURLE_COULDNT_CONNECT_def)
  then show ?thesis
    using unreachable_sample by (simp add: closed_filesystem_def)
qed

section \<open>Sample runs\<close>

theorem download_truncates_witness:
  "can_open open_filesystem (c_str ''/tmp/file'')
   \<and> unreachable (lib_const (no_answer 7))
   \<and> (\<exists>e'. fst (download (lib_const (no_answer 7)) open_filesystem new_handle
          ''http://unreachable.invalid/'' ''/tmp/file'' 30) = Inl e')
   \<and> files (snd (snd (download (lib_const (no_answer 7)) open_filesystem new_handle
          ''http://unreachable.invalid/'' ''/tmp/file'' 30))) (c_str ''/tmp/file'') = Some []
   \<and> fst (prepare_basic (lib_setopt_fails 2) new_handle ''http://unreachable.invalid/'' 30 False) =
        Inl (curl_error 2)
   \<and> files (snd (snd (download (lib_setopt_fails 2) open_filesystem new_handle
          ''http://unreachable.invalid/'' ''/tmp/file'' 30))) (c_str ''/tmp/file'') = Some []"
proof -
  have o: "can_open open_filesystem (c_str ''/tmp/file'')"
    by (simp add: open_filesystem_def)
  have f: "fst (prepare_basic (lib_setopt_fails 2) new_handle ''http://unreachable.invalid/'' 30 False) =
        Inl (curl_error 2)"
    by (simp add: prepare_basic_def setopt_def curl_easy_setopt_def lib_setopt_fails_def
        CURLE_OK_def)
  note t1 = download_truncates [of open_filesystem "''/tmp/file''" "lib_const (no_answer 7)"
      new_handle "''http://unreachable.invalid/''" 30]
  note t2 = download_truncates [of open_filesystem "''/tmp/file''" "lib_setopt_fails 2"
      new_handle "''http://unreachable.invalid/''" 30 "curl_error 2"]
  from t1 o unreachable_sample
  have c1: "\<exists>e'. fst (download (lib_const (no_answer 7)) open_filesystem new_handle
          ''http://unreachable.invalid/'' ''/tmp/file'' 30) = Inl e'"
    and c2: "files (snd (snd (download (lib_const (no_answer 7)) open_filesystem new_handle
          ''http://unreachable.invalid/'' ''/tmp/file'' 30))) (c_str ''/tmp/file'') = Some []"
    by blast+
  from t2 o f
  have c3: "files (snd (snd (download (lib_setopt_fails 2) open_filesystem new_handle
          ''http://unreachable.invalid/'' ''/tmp/file'' 30))) (c_str ''/tmp/file'') = Some []"
    by blast
  show ?thesis
    by (intro conjI) (fact o unreachable_sample c1 c2 f c3)+
qed

lemma perform_sample:
  "fst (perform (lib_const (no_answer 0)) h resp out) = Inr ()"
  by (simp add: perform_def setopt_def curl_easy_setopt_def curl_easy_perform_def lib_const_def
      no_answer_def Let_def CURLE_OK_def)

lemma getinfo_sample:
  "getinfo_response_code (lib_const tr) h = Inr (info_response_code (handle_p h))"
  by (simp add: getinfo_response_code_def curl_easy_getinfo_response_code_def lib_const_def)

lemma lib_const_ok: "\<forall>opt v. setopt_code (lib_const tr) opt v = CURLE_OK"
  by (simp add: lib_const_def)

lemma tolower_samples:
  "tolower ''GZip'' = tolower ''gzip''"
  "tolower ''deflate'' \<noteq> tolower ''gzip''"
  by code_simp+

theorem process_response_gzip_only_witness:
  "headers (new_result\<lparr>headers := [''content-encoding'' \<mapsto> ''GZip'']\<rparr>) ''content-encoding'' = Some ''GZip''
   \<and> tolower ''GZip'' = tolower ''gzip''
   \<and> process_response toy_zlib (new_result\<lparr>body := ''GZhello'', headers := [''content-encoding'' \<mapsto> ''GZip'']\<rparr>) =
       Inr (new_result\<lparr>body := ''hello'', headers := [''content-encoding'' \<mapsto> ''GZip'']\<rparr>)
   \<and> headers new_result ''content-encoding'' = None
   \<and> process_response toy_zlib new_result = Inr new_result
   \<and> tolower ''deflate'' \<noteq> tolower ''gzip''
   \<and> process_response toy_zlib (new_result\<lparr>body := ''GZhello'', headers := [''content-encoding'' \<mapsto> ''deflate'']\<rparr>) =
       Inr (new_result\<lparr>body := ''GZhello'', headers := [''content-encoding'' \<mapsto> ''deflate'']\<rparr>)
   \<and> (\<exists>r. fst (get (lib_const (no_answer 0)) toy_zlib new_handle ''http://h/'' 30) =
          process_response toy_zlib r)
   \<and> (\<exists>r. fst (post (lib_const (no_answer 0)) toy_zlib new_handle ''http://h/'' ''x=1'' 30) =
          process_response toy_zlib r)"
proof -
  let ?L = "lib_const (no_answer 0)"
  let ?rg = "new_result\<lparr>body := ''GZhello'', headers := [''content-encoding'' \<mapsto> ''GZip'']\<rparr>"
  let ?rd = "new_result\<lparr>body := ''GZhello'', headers := [''content-encoding'' \<mapsto> ''deflate'']\<rparr>"
  have g: "gunzip toy_zlib ''GZhello'' = Inr ''hello''"
    by (rule gunzip_inflated) (simp_all add: toy_zlib_def Z_OK_def)
  from process_response_gzip_only [of ?rg "''GZip''" toy_zlib] tolower_samples(1) g
  have c1: "process_response toy_zlib ?rg =
       Inr (new_result\<lparr>body := ''hello'', headers := [''content-encoding'' \<mapsto> ''GZip'']\<rparr>)"
    by (simp add: new_result_def)
  from process_response_gzip_only [of new_result _ toy_zlib]
  have c2: "process_response toy_zlib new_result = Inr new_result"
    by (simp add: new_result_def)
  from process_response_gzip_only [of ?rd "''deflate''" toy_zlib] tolower_samples(2)
  have c3: "process_response toy_zlib ?rd = Inr ?rd"
    by (simp add: new_result_def)
  let ?P = "prepare_basic ?L new_handle ''http://h/'' 30 True"
  let ?Q = "perform ?L (snd ?P) new_result ostringstream"
  have p: "?P = (Inr (), snd ?P)"
    using prepare_basic_ok [OF lib_const_ok, of "no_answer 0" new_handle "''http://h/''" 30 True]
    by simp
  have q: "?Q = (Inr (), fst (snd ?Q), fst (snd (snd ?Q)), snd (snd (snd ?Q)))"
    using perform_sample [of "snd ?P" new_result ostringstream]
    by (metis prod.collapse)
  note i = getinfo_sample [of "no_answer 0" "fst (snd ?Q)"]
  from process_response_gzip_only [of _ _ toy_zlib ?L new_handle "''http://h/''" 30 "snd ?P"
      "fst (snd ?Q)" "fst (snd (snd ?Q))" "snd (snd (snd ?Q))"
      "info_response_code (handle_p (fst (snd ?Q)))"] p q i
  have c4: "\<exists>r. fst (get ?L toy_zlib new_handle ''http://h/'' 30) = process_response toy_zlib r"
    by blast
  let ?R = "prepare_post ?L (snd ?P) ''x=1'' (length ''x=1'') False"
  let ?S = "perform ?L (snd ?R) new_result ostringstream"
  have b: "(if length ''x=1'' > 10240
            then (case gzip toy_zlib ''x=1'' of Inl e \<Rightarrow> Inl e | Inr z \<Rightarrow> Inr (z, True))
            else Inr (''x=1'', False)) = Inr (''x=1'', False)"
    by simp
  have r: "?R = (Inr (), snd ?R)"
    using prepare_post_ok [OF lib_const_ok, of "no_answer 0" "snd ?P" "''x=1''" "length ''x=1''" False]
    by simp
  have s: "?S = (Inr (), fst (snd ?S), fst (snd (snd ?S)), snd (snd (snd ?S)))"
    using perform_sample [of "snd ?R" new_result ostringstream]
    by (metis prod.collapse)
  note j = getinfo_sample [of "no_answer 0" "fst (snd ?S)"]
  from process_response_gzip_only [of _ _ toy_zlib ?L new_handle "''http://h/''" 30 "snd ?P"
      _ _ _ _ "''x=1''" "''x=1''" False "snd ?R" "fst (snd ?S)" "fst (snd (snd ?S))"
      "snd (snd (snd ?S))" "info_response_code (handle_p (fst (snd ?S)))"] p b r s j
  have c5: "\<exists>r. fst (post ?L toy_zlib new_handle ''http://h/'' ''x=1'' 30) =
      process_response toy_zlib r"
    by blast
  have h1: "headers (new_result\<lparr>headers := [''content-encoding'' \<mapsto> ''GZip'']\<rparr>) ''content-encoding'' = Some ''GZip''"
    and h2: "headers new_result ''content-encoding'' = None"
    by (simp_all add: new_result_def)
  show ?thesis
    by (intro conjI) (fact h1 tolower_samples c1 h2 c2 c3 c4 c5)+
qed

end
